theory Spec2Isabelle
  imports Complex_Main
begin

section \<open>The route collection manager (RoutesService)\<close>

text \<open>
  A shallow embedding of the class \<^verbatim>\<open>RoutesService\<close> of the route collection manager.
  Route layers are objects that the manager, its callers and local variables share by
  reference, so the model keeps them in a store: a reference is a natural number, the store
  maps every reference to the layer it denotes, and \<open>nextRef\<close> is the first reference
  that no object created so far uses.  A segment is compared by the reference of the
  object it is, which it carries as a field; markers and points are kept by value.

  A JavaScript exception leaves behind whatever was mutated before it was thrown, so an
  operation of the manager is a function from the state to an outcome \<^emph>\<open>and\<close> the state
  reached: \<open>Inl e\<close> when the exception \<open>e\<close> was thrown, \<open>Inr x\<close> when \<open>x\<close> was returned.
\<close>

subsection \<open>Values\<close>

datatype jsError = TypeError

text \<open>
  A JavaScript string is a sequence of 16-bit code units, here the list of their
  numbers, as integers; \<open>js\<close> gives the code units of a text written in ASCII.  A string-typed slot
  of the source can hold \<^verbatim>\<open>undefined\<close> and \<^verbatim>\<open>null\<close> at run time; the code tests for both.
\<close>

type_synonym jsText = "int list"

definition js :: "string \<Rightarrow> jsText" where
  "js cs = map of_char cs"

datatype jsString = Undefined | Null | Str jsText

text \<open>String concatenation with \<^verbatim>\<open>+\<close>, which renders a missing left operand as text.\<close>

fun toString :: "jsString \<Rightarrow> jsText" where
  "toString Undefined = js ''undefined''"
| "toString Null = js ''null''"
| "toString (Str s) = s"

datatype lifecycle = Hidden | ReadOnly | Edit

text \<open>
  \<^verbatim>\<open>IRouteSegment\<close>.  \<open>segmentRef\<close> is the reference of the segment object: two segment
  values denote the same object exactly when their references agree.
\<close>

record 'p segment =
  segmentRef :: nat
  latlngs :: "'p list"
  routePoint :: 'p
  routingType :: string

record 'p marker =
  latlng :: 'p
  title :: string
  iconType :: jsString

text \<open>The import and export payload, \<^verbatim>\<open>Common.RouteData\<close>.\<close>

record 'p routeData =
  name :: jsString
  segments :: "'p segment list"
  markers :: "'p marker list"

text \<open>\<^verbatim>\<open>IRoute\<close>: the route a layer wraps; \<open>name\<close> and \<open>isVisible\<close> are its properties.\<close>

record 'p route = "'p routeData" +
  isVisible :: bool

text \<open>
  Modelled from the spec: the class \<^verbatim>\<open>RouteLayer\<close> is not among the sources.  By the
  spec's data model a layer owns one route, a lifecycle state among Hidden, ReadOnly and
  Edit, and an edit-mode sub-flag; \<open>dataChanged\<close> counts the notifications raised by
  \<^verbatim>\<open>raiseDataChanged\<close>.
\<close>

record 'p routeLayer = "'p route" +
  state :: lifecycle
  editMode :: string
  dataChanged :: nat

text \<open>
  The fields of \<^verbatim>\<open>RoutesService\<close>: \<open>routes\<close>, \<open>selectedRoute\<close> (\<open>None\<close> is \<^verbatim>\<open>null\<close>) and
  \<open>routeChanged\<close> (the number of notifications sent to the subject), together with the
  store of layers and the layers attached to the map of \<^verbatim>\<open>mapService\<close>.
\<close>

record 'p routesService =
  heap :: "nat \<Rightarrow> 'p routeLayer"
  nextRef :: nat
  routes :: "nat list"
  selectedRoute :: "nat option"
  mapLayers :: "nat set"
  routeChanged :: nat

text \<open>
  The collaborators injected into the manager, none of which is among the sources:
  the two resource strings \<^verbatim>\<open>resourcesService.route\<close> and \<^verbatim>\<open>resourcesService.split\<close>,
  the table \<^verbatim>\<open>IconsService.getAvailableIconTypes()\<close>, the map library's
  \<^verbatim>\<open>a.distanceTo(b)\<close> in meters, the lifecycle state and the edit mode that a layer
  made by the factory starts in, what hiding a layer does to its edit mode
  (\<open>editModeWhenHidden\<close>, from the mode before), the lifecycle state in which
  \<^verbatim>\<open>setEditMode\<close> leaves a layer (\<open>stateOfEditMode\<close>, from the mode set and the state
  before), and \<^verbatim>\<open>RouteLayer.reverse\<close> as a function on the segment list.
\<close>

record 'p services =
  resourceRoute :: jsText
  resourceSplit :: jsText
  availableIconTypes :: "jsText list"
  distanceTo :: "'p \<Rightarrow> 'p \<Rightarrow> real"
  factoryState :: lifecycle
  factoryEditMode :: string
  editModeWhenHidden :: "string \<Rightarrow> string"
  stateOfEditMode :: "string \<Rightarrow> lifecycle \<Rightarrow> lifecycle"
  reverseSegments :: "'p segment list \<Rightarrow> 'p segment list"

definition MERGE_THRESHOLD :: real where
  "MERGE_THRESHOLD = 50"

subsection \<open>Operations with exceptions and state\<close>

type_synonym ('a, 's) js = "'s \<Rightarrow> (jsError + 'a) \<times> 's"

definition returnJ :: "'a \<Rightarrow> ('a, 's) js" where
  "returnJ x = (\<lambda>s. (Inr x, s))"

definition throwJ :: "jsError \<Rightarrow> ('a, 's) js" where
  "throwJ e = (\<lambda>s. (Inl e, s))"

definition bindJ :: "('a, 's) js \<Rightarrow> ('a \<Rightarrow> ('b, 's) js) \<Rightarrow> ('b, 's) js" where
  "bindJ m f = (\<lambda>s. case m s of (Inl e, s') \<Rightarrow> (Inl e, s') | (Inr x, s') \<Rightarrow> f x s')"

definition thenJ :: "('a, 's) js \<Rightarrow> ('b, 's) js \<Rightarrow> ('b, 's) js" where
  "thenJ m n = bindJ m (\<lambda>_. n)"

text \<open>A read of the state that may throw, and an update that cannot.\<close>

definition readJ :: "('s \<Rightarrow> jsError + 'a) \<Rightarrow> ('a, 's) js" where
  "readJ f = (\<lambda>s. (f s, s))"

definition modifyJ :: "('s \<Rightarrow> 's) \<Rightarrow> (unit, 's) js" where
  "modifyJ f = (\<lambda>s. (Inr (), f s))"

text \<open>Dereferencing a variable that holds \<^verbatim>\<open>null\<close> or \<^verbatim>\<open>undefined\<close> throws.\<close>

definition nonNull :: "'a option \<Rightarrow> ('a, 's) js" where
  "nonNull x = (case x of None \<Rightarrow> throwJ TypeError | Some v \<Rightarrow> returnJ v)"

subsection \<open>Arrays\<close>

text \<open>
  \<^verbatim>\<open>xs.indexOf(x)\<close>: the first index holding \<open>x\<close>, or \<open>-1\<close>.  The source compares
  object references, and so does the model: the function is applied to lists of
  references only.
\<close>

fun indexOf :: "'a \<Rightarrow> 'a list \<Rightarrow> int" where
  "indexOf x [] = -1"
| "indexOf x (y # ys) =
     (if y = x then 0 else (let i = indexOf x ys in if i < 0 then -1 else i + 1))"

text \<open>
  \<^verbatim>\<open>xs.splice(start, deleteCount, ...items)\<close>: a negative start counts from the end, a
  start beyond the end is the end, a missing count deletes to the end.  The result is
  the list of removed elements and the array as it is afterwards.
\<close>

definition spliceStart :: "int \<Rightarrow> 'a list \<Rightarrow> nat" where
  "spliceStart start xs =
     (if start < 0 then nat (max (int (length xs) + start) 0) else min (nat start) (length xs))"

definition splice_js :: "int \<Rightarrow> nat option \<Rightarrow> 'a list \<Rightarrow> 'a list \<Rightarrow> 'a list \<times> 'a list" where
  "splice_js start deleteCount items xs =
     (let k = spliceStart start xs;
          n = (case deleteCount of None \<Rightarrow> length xs - k | Some d \<Rightarrow> min d (length xs - k))
      in (take n (drop k xs), take k xs @ items @ drop (k + n) xs))"

subsection \<open>Route names\<close>

text \<open>
  The template literal renders the loop index in decimal.  The index is a JavaScript
  number, exact below \<open>2 ^ 53\<close>; it never exceeds the length of the route array by more
  than one, and an array has fewer than \<open>2 ^ 32\<close> elements, so a natural number models it.
\<close>

definition digitChar :: "nat \<Rightarrow> int" where
  "digitChar d = 0x30 + int d"

fun numberToString :: "nat \<Rightarrow> jsText" where
  "numberToString n =
     (if n < 10 then [digitChar n] else numberToString (n div 10) @ [digitChar (n mod 10)])"

declare numberToString.simps [simp del]

text \<open>\<^verbatim>\<open>\d\<close> matches the ten code units from \<^verbatim>\<open>0\<close> to \<^verbatim>\<open>9\<close>.\<close>

definition isDigit :: "int \<Rightarrow> bool" where
  "isDigit c = (0x30 \<le> c \<and> c \<le> 0x39)"

text \<open>
  The code units that \<^verbatim>\<open>.\<close> does not match: line feed, carriage return, line
  separator and paragraph separator.
\<close>

definition isLineTerminator :: "int \<Rightarrow> bool" where
  "isLineTerminator c = (c = 0x0A \<or> c = 0x0D \<or> c = 0x2028 \<or> c = 0x2029)"

text \<open>
  The pattern \<^verbatim>\<open>/(.*) \d+/\<close>.  \<open>matchSuffix\<close> is the part after the group: a space and
  a longest run of digits.  \<open>matchAt\<close> tries the pattern at the head of the text: the
  greedy group first takes one more character and gives it back only if the rest fails.
  The result is the group and the text left after the match.
\<close>

fun matchSuffix :: "jsText \<Rightarrow> jsText option" where
  "matchSuffix (c # d # rest) =
     (if c = 0x20 \<and> isDigit d then Some (dropWhile isDigit rest) else None)"
| "matchSuffix _ = None"

fun matchAt :: "jsText \<Rightarrow> (jsText \<times> jsText) option" where
  "matchAt [] = None"
| "matchAt (c # cs) =
     (case (if isLineTerminator c then None else matchAt cs) of
        Some (g, rest) \<Rightarrow> Some (c # g, rest)
      | None \<Rightarrow> (case matchSuffix (c # cs) of Some rest \<Rightarrow> Some ([], rest) | None \<Rightarrow> None))"

text \<open>
  \<^verbatim>\<open>routeName.replace(/(.*) \d+/, "$1")\<close>: the leftmost match is replaced by its group;
  without a match the text is unchanged.
\<close>

fun replaceNumber :: "jsText \<Rightarrow> jsText" where
  "replaceNumber [] = []"
| "replaceNumber (c # cs) =
     (case matchAt (c # cs) of Some (g, rest) \<Rightarrow> g @ rest | None \<Rightarrow> c # replaceNumber cs)"

definition routeNames :: "'p routesService \<Rightarrow> jsString list" where
  "routeNames s = map (\<lambda>r. name (heap s r)) (routes s)"

definition getRouteByName :: "jsString \<Rightarrow> 'p routesService \<Rightarrow> nat option" where
  "getRouteByName routeName s = find (\<lambda>routeLayerToFind. name (heap s routeLayerToFind) = routeName) (routes s)"

definition isNameAvailable :: "jsString \<Rightarrow> 'p routesService \<Rightarrow> bool" where
  "isNameAvailable nm s =
     (getRouteByName nm s = None \<and> nm \<noteq> Null \<and> nm \<noteq> Undefined \<and> nm \<noteq> Str [])"

text \<open>The template literal \<^verbatim>\<open>`${routeName} ${index}`\<close>.\<close>

definition candidateName :: "jsText \<Rightarrow> nat \<Rightarrow> jsText" where
  "candidateName routeName index = routeName @ js '' '' @ numberToString index"

definition nameInUse :: "jsString list \<Rightarrow> jsText \<Rightarrow> bool" where
  "nameInUse names availableRouteName = list_ex (\<lambda>n. n = Str availableRouteName) names"

function createRouteName_loop :: "jsString list \<Rightarrow> jsText \<Rightarrow> nat \<Rightarrow> jsText" where
  "createRouteName_loop names routeName index =
     (if nameInUse names (candidateName routeName index)
      then createRouteName_loop names routeName (index + 1)
      else candidateName routeName index)"
  by pat_completeness auto

text \<open>The loop stops: decimal rendering is injective, so each round uses up one name.\<close>

definition parseNumber :: "jsText \<Rightarrow> nat" where
  "parseNumber cs = foldl (\<lambda>acc c. 10 * acc + nat (c - 0x30)) 0 cs"

lemma digitChar_value: "nat (digitChar d - 0x30) = d"
  by (simp add: digitChar_def)

lemma parseNumber_numberToString: "parseNumber (numberToString n) = n"
proof (induction n rule: numberToString.induct)
  case (1 n)
  show ?case
  proof (cases "n < 10")
    case True
    then show ?thesis
      by (subst numberToString.simps) (simp add: parseNumber_def digitChar_value)
  next
    case False
    with 1 have "parseNumber (numberToString (n div 10)) = n div 10" by simp
    with False show ?thesis
      by (subst numberToString.simps) (simp add: parseNumber_def digitChar_value)
  qed
qed

lemma numberToString_inj: "numberToString a = numberToString b \<Longrightarrow> a = b"
  by (metis parseNumber_numberToString)

lemma candidateName_inj: "candidateName rn a = candidateName rn b \<Longrightarrow> a = b"
  by (simp add: candidateName_def numberToString_inj)

termination createRouteName_loop
proof (relation "measure (\<lambda>(names, routeName, index).
          card {n \<in> set names. \<exists>k \<ge> index. n = Str (candidateName routeName k)})")
  show "wf (measure (\<lambda>(names, routeName, index).
          card {n \<in> set names. \<exists>k \<ge> index. n = Str (candidateName routeName k)}))" by simp
next
  fix names :: "jsString list" and routeName index
  assume u: "nameInUse names (candidateName routeName index)"
  let ?A = "{n \<in> set names. \<exists>k \<ge> index + 1. n = Str (candidateName routeName k)}"
  let ?B = "{n \<in> set names. \<exists>k \<ge> index. n = Str (candidateName routeName k)}"
  have fin: "finite ?B" by simp
  have mem: "Str (candidateName routeName index) \<in> ?B"
    using u by (auto simp: nameInUse_def list_ex_iff)
  have notmem: "Str (candidateName routeName index) \<notin> ?A"
    by (auto dest!: candidateName_inj)
  have sub: "?A \<subseteq> ?B"
    using Suc_leD by fastforce
  from sub mem notmem have "?A \<subset> ?B" by blast
  with fin have "card ?A < card ?B" by (rule psubset_card_mono)
  then show "((names, routeName, index + 1), (names, routeName, index))
        \<in> measure (\<lambda>(names, routeName, index).
          card {n \<in> set names. \<exists>k \<ge> index. n = Str (candidateName routeName k)})"
    by simp
qed

declare createRouteName_loop.simps [simp del]

text \<open>
  \<^verbatim>\<open>createRouteName\<close>.  A missing argument takes the default
  \<^verbatim>\<open>resourcesService.route\<close>; \<^verbatim>\<open>null\<close> has no \<^verbatim>\<open>replace\<close>.
\<close>

definition createRouteName ::
  "'p services \<Rightarrow> jsString \<Rightarrow> 'p routesService \<Rightarrow> jsError + jsText" where
  "createRouteName sv routeName s =
     (case routeName of
        Null \<Rightarrow> Inl TypeError
      | Undefined \<Rightarrow> Inr (createRouteName_loop (routeNames s) (replaceNumber (resourceRoute sv)) 1)
      | Str n \<Rightarrow> Inr (createRouteName_loop (routeNames s) (replaceNumber n) 1))"

subsection \<open>Route layers\<close>

text \<open>
  Modelled from the spec: the state transitions of \<^verbatim>\<open>RouteLayer\<close>, which the spec calls
  unconditional, its edit-mode accessors, and \<^verbatim>\<open>raiseDataChanged\<close>.  By the spec the
  accessors carry the edit mode across a round trip through the hidden state, so hiding
  a layer may change its edit mode and \<^verbatim>\<open>setEditMode\<close> may take the layer out of the
  hidden state; the spec says neither how, and both are parameters.
\<close>

definition updateLayer ::
  "nat \<Rightarrow> ('p routeLayer \<Rightarrow> 'p routeLayer) \<Rightarrow> 'p routesService \<Rightarrow> 'p routesService" where
  "updateLayer r f s = s\<lparr>heap := (heap s)(r := f (heap s r))\<rparr>"

definition setHiddenState :: "'p services \<Rightarrow> nat \<Rightarrow> 'p routesService \<Rightarrow> 'p routesService" where
  "setHiddenState sv r =
     updateLayer r (\<lambda>l. l\<lparr>state := Hidden, editMode := editModeWhenHidden sv (editMode l)\<rparr>)"

definition setReadOnlyState :: "nat \<Rightarrow> 'p routesService \<Rightarrow> 'p routesService" where
  "setReadOnlyState r = updateLayer r (\<lambda>l. l\<lparr>state := ReadOnly\<rparr>)"

definition setEditRouteState :: "nat \<Rightarrow> 'p routesService \<Rightarrow> 'p routesService" where
  "setEditRouteState r = updateLayer r (\<lambda>l. l\<lparr>state := Edit\<rparr>)"

definition getEditMode :: "nat \<Rightarrow> 'p routesService \<Rightarrow> string" where
  "getEditMode r s = editMode (heap s r)"

definition setEditMode ::
  "'p services \<Rightarrow> nat \<Rightarrow> string \<Rightarrow> 'p routesService \<Rightarrow> 'p routesService" where
  "setEditMode sv r m =
     updateLayer r (\<lambda>l. l\<lparr>editMode := m, state := stateOfEditMode sv m (state l)\<rparr>)"

definition raiseDataChanged :: "nat \<Rightarrow> 'p routesService \<Rightarrow> 'p routesService" where
  "raiseDataChanged r = updateLayer r (\<lambda>l. l\<lparr>dataChanged := dataChanged l + 1\<rparr>)"

definition setSegments :: "nat \<Rightarrow> 'p segment list \<Rightarrow> 'p routesService \<Rightarrow> 'p routesService" where
  "setSegments r segs = updateLayer r (\<lambda>l. l\<lparr>segments := segs\<rparr>)"

definition setMarkers :: "nat \<Rightarrow> 'p marker list \<Rightarrow> 'p routesService \<Rightarrow> 'p routesService" where
  "setMarkers r ms = updateLayer r (\<lambda>l. l\<lparr>markers := ms\<rparr>)"

text \<open>
  Modelled from the spec: \<^verbatim>\<open>RouteLayer.getLastLatLng\<close> returns the last coordinate of
  the last segment and fails when there is none.
\<close>

definition getLastLatLng :: "'p segment list \<Rightarrow> jsError + 'p" where
  "getLastLatLng segs =
     (if segs = [] then Inl TypeError
      else if latlngs (last segs) = [] then Inl TypeError
      else Inr (last (latlngs (last segs))))"

text \<open>
  \<^verbatim>\<open>segments[0].latlngs[0]\<close>: reading \<^verbatim>\<open>latlngs\<close> of a missing segment throws; the first
  element of an empty point list is \<^verbatim>\<open>undefined\<close>, here \<open>None\<close>.
\<close>

definition firstLatLng :: "'p segment list \<Rightarrow> jsError + 'p option" where
  "firstLatLng segs =
     (case segs of [] \<Rightarrow> Inl TypeError
      | seg # _ \<Rightarrow> (case latlngs seg of [] \<Rightarrow> Inr None | p # _ \<Rightarrow> Inr (Some p)))"

text \<open>
  \<^verbatim>\<open>a.distanceTo(b) < RoutesService.MERGE_THRESHOLD\<close>.  The call throws when \<open>a\<close> is
  \<^verbatim>\<open>undefined\<close>, and the map library throws when \<open>b\<close> is.
\<close>

definition closerThanThreshold :: "'p services \<Rightarrow> 'p option \<Rightarrow> 'p option \<Rightarrow> jsError + bool" where
  "closerThanThreshold sv a b =
     (case a of None \<Rightarrow> Inl TypeError
      | Some x \<Rightarrow> (case b of None \<Rightarrow> Inl TypeError
                  | Some y \<Rightarrow> Inr (distanceTo sv x y < MERGE_THRESHOLD)))"

text \<open>
  Modelled from the spec: \<^verbatim>\<open>RouteLayerFactory\<close> constructs a layer from a route or from
  imported data.  The new object takes the next free reference.  The spec does not
  say in which state the factory hands a layer over, so that state is a parameter.  An
  imported route carries no visibility flag and is invisible until the map shows it.
\<close>

definition createRouteLayer ::
  "'p services \<Rightarrow> 'p route \<Rightarrow> 'p routesService \<Rightarrow> nat \<times> 'p routesService" where
  "createRouteLayer sv rt s =
     (nextRef s,
      s\<lparr>heap := (heap s)(nextRef s :=
             \<lparr>name = name rt, segments = segments rt, markers = markers rt,
              isVisible = isVisible rt, state = factoryState sv, editMode = factoryEditMode sv,
              dataChanged = 0\<rparr>),
        nextRef := nextRef s + 1\<rparr>)"

definition createRouteLayerFromData ::
  "'p services \<Rightarrow> 'p routeData \<Rightarrow> 'p routesService \<Rightarrow> nat \<times> 'p routesService" where
  "createRouteLayerFromData sv routeData s =
     createRouteLayer sv
       \<lparr>name = name routeData, segments = segments routeData, markers = markers routeData,
        isVisible = False\<rparr> s"

text \<open>
  Modelled from the spec: the map surface of \<^verbatim>\<open>mapService\<close>.  \<^verbatim>\<open>addLayer\<close> shows a
  layer and \<^verbatim>\<open>removeLayer\<close> hides it; the visibility flag of the route follows.
\<close>

definition addLayer :: "nat \<Rightarrow> 'p routesService \<Rightarrow> 'p routesService" where
  "addLayer r s = updateLayer r (\<lambda>l. l\<lparr>isVisible := True\<rparr>) (s\<lparr>mapLayers := insert r (mapLayers s)\<rparr>)"

definition removeLayer :: "nat \<Rightarrow> 'p routesService \<Rightarrow> 'p routesService" where
  "removeLayer r s = updateLayer r (\<lambda>l. l\<lparr>isVisible := False\<rparr>) (s\<lparr>mapLayers := mapLayers s - {r}\<rparr>)"

subsection \<open>The manager\<close>

text \<open>The constructor: no routes, no selection.\<close>

definition newRoutesService :: "'p routeLayer \<Rightarrow> 'p routesService" where
  "newRoutesService blank =
     \<lparr>heap = (\<lambda>_. blank), nextRef = 0, routes = [], selectedRoute = None,
      mapLayers = {}, routeChanged = 0\<rparr>"

definition selectRoute :: "nat option \<Rightarrow> 'p routesService \<Rightarrow> 'p routesService" where
  "selectRoute routeLayer s =
     (let s1 = (case selectedRoute s of Some sel \<Rightarrow> setReadOnlyState sel s | None \<Rightarrow> s)
      in s1\<lparr>selectedRoute := routeLayer, routeChanged := routeChanged s1 + 1\<rparr>)"

definition addRoute :: "'p services \<Rightarrow> 'p route \<Rightarrow> 'p routesService \<Rightarrow> 'p routesService" where
  "addRoute sv rt s =
     (let (routeLayer, s1) = createRouteLayer sv rt s;
          s2 = s1\<lparr>routes := routes s1 @ [routeLayer]\<rparr>;
          s3 = addLayer routeLayer s2;
          s4 = setEditRouteState routeLayer s3
      in selectRoute (Some routeLayer) s4)"

definition removeRoute :: "jsString \<Rightarrow> 'p routesService \<Rightarrow> 'p routesService" where
  "removeRoute routeName s =
     (case getRouteByName routeName s of
        None \<Rightarrow> s
      | Some routeLayer \<Rightarrow>
          (let s1 = (if selectedRoute s = Some routeLayer then selectRoute None s else s);
               s2 = removeLayer routeLayer s1
           in s2\<lparr>routes := snd (splice_js (indexOf routeLayer (routes s2)) (Some 1) [] (routes s2))\<rparr>))"

definition changeRouteState :: "nat \<Rightarrow> 'p routesService \<Rightarrow> 'p routesService" where
  "changeRouteState routeLayer s =
     (if Some routeLayer = selectedRoute s \<and> isVisible (heap s routeLayer)
      then removeLayer routeLayer (selectRoute None s)
      else (let s1 = (if isVisible (heap s routeLayer) = False then addLayer routeLayer s else s)
            in selectRoute (Some routeLayer) s1))"

text \<open>
  \<^verbatim>\<open>this.selectedRoute\<close> as the receiver of a member access or of a method call.
\<close>

definition theSelected :: "(nat, 'p routesService) js" where
  "theSelected = (\<lambda>s. case selectedRoute s of None \<Rightarrow> (Inl TypeError, s) | Some sel \<Rightarrow> (Inr sel, s))"

definition onSelected ::
  "(nat \<Rightarrow> 'p routesService \<Rightarrow> 'p routesService) \<Rightarrow> (unit, 'p routesService) js" where
  "onSelected f = bindJ theSelected (\<lambda>sel. modifyJ (f sel))"

subsection \<open>Import\<close>

text \<open>
  Modelled from the spec: \<^verbatim>\<open>mapService.routesJsonToRoutesObject\<close> turns the plain points
  of a payload into points of the map library, which the model does not tell apart.  By
  the payload shape of the spec every route carries a marker list; a payload written
  without one (as in \<^verbatim>\<open>splitSelectedRouteAt\<close>) has the empty list.
\<close>

definition routesJsonToRoutesObject :: "'p routeData list \<Rightarrow> 'p routeData list" where
  "routesJsonToRoutesObject rs = rs"

text \<open>
  The loop over the markers in \<^verbatim>\<open>setData\<close>.  \<^verbatim>\<open>_.find\<close> returns the element found,
  and the negation also holds for an element that is the empty string; the first
  element of an empty table is \<^verbatim>\<open>undefined\<close>.
\<close>

definition fixMarkerType :: "'p services \<Rightarrow> 'p marker \<Rightarrow> 'p marker" where
  "fixMarkerType sv mk =
     (let found = (case find (\<lambda>m. Str m = iconType mk) (availableIconTypes sv) of
                     None \<Rightarrow> False | Some m \<Rightarrow> m \<noteq> [])
      in if \<not> found
         then mk\<lparr>iconType := (case availableIconTypes sv of [] \<Rightarrow> Undefined | t # _ \<Rightarrow> Str t)\<rparr>
         else mk)"

text \<open>
  The loop at the end of \<^verbatim>\<open>addLayersToMap\<close>.  \<open>addLayerFromData\<close> is the part of its
  body that follows the choice of the name: the layer is made, pushed, shown and selected.
\<close>

definition addLayerFromData ::
  "'p services \<Rightarrow> 'p routeData \<Rightarrow> 'p routesService \<Rightarrow> 'p routesService" where
  "addLayerFromData sv routeData s =
     (let (routeLayer, s1) = createRouteLayerFromData sv routeData s;
          s2 = s1\<lparr>routes := routes s1 @ [routeLayer]\<rparr>;
          s3 = addLayer routeLayer s2
      in selectRoute (Some routeLayer) s3)"

fun addRouteLayers :: "'p services \<Rightarrow> 'p routeData list \<Rightarrow> (unit, 'p routesService) js" where
  "addRouteLayers sv [] = returnJ ()"
| "addRouteLayers sv (routeData # rest) =
     bindJ (readJ (\<lambda>s. if isNameAvailable (name routeData) s = False
                        then map_sum id Str (createRouteName sv (name routeData) s)
                        else Inr (name routeData))) (\<lambda>nm.
     thenJ (modifyJ (addLayerFromData sv (routeData\<lparr>name := nm\<rparr>)))
           (addRouteLayers sv rest))"

definition addLayersToMap :: "'p services \<Rightarrow> 'p routeData list \<Rightarrow> (unit, 'p routesService) js" where
  "addLayersToMap sv rs =
     (\<lambda>s. if length rs = 1 \<and> length (segments (rs ! 0)) = 0 \<and> length (routes s) > 0
          then (thenJ (modifyJ (\<lambda>s. if selectedRoute s = None
                                     then s\<lparr>selectedRoute := Some (routes s ! 0)\<rparr> else s))
               (bindJ (bindJ theSelected (\<lambda>sel. readJ (\<lambda>s. Inr (getEditMode sel s)))) (\<lambda>editMode.
                thenJ (onSelected (setHiddenState sv))
               (thenJ (onSelected (\<lambda>sel s. setMarkers sel (markers (heap s sel) @ markers (rs ! 0)) s))
                      (onSelected (\<lambda>sel. setEditMode sv sel editMode)))))) s
          else addRouteLayers sv rs s)"

definition setData :: "'p services \<Rightarrow> 'p routeData list option \<Rightarrow> (unit, 'p routesService) js" where
  "setData sv routesArg =
     (case routesArg of
        None \<Rightarrow> returnJ ()
      | Some rs \<Rightarrow>
          if length rs = 0 then returnJ ()
          else addLayersToMap sv
                 (map (\<lambda>rt. rt\<lparr>markers := map (fixMarkerType sv) (markers rt)\<rparr>)
                      (routesJsonToRoutesObject rs)))"

subsection \<open>Split\<close>

text \<open>
  An object literal makes a new object, which takes the next free reference.
\<close>

definition newObject :: "(nat, 'p routesService) js" where
  "newObject = (\<lambda>s. (Inr (nextRef s), s\<lparr>nextRef := nextRef s + 1\<rparr>))"

text \<open>
  \<^verbatim>\<open>segments.indexOf(segmenet)\<close> looks for the segment object passed, that is for its
  reference among the references of the segments of the selected route.
\<close>

definition splitSelectedRouteAt :: "'p services \<Rightarrow> 'p segment \<Rightarrow> (unit, 'p routesService) js" where
  "splitSelectedRouteAt sv segmenet =
     bindJ theSelected (\<lambda>sel.
     bindJ (readJ (\<lambda>s. Inr (indexOf (segmentRef segmenet)
                               (map segmentRef (segments (heap s sel)))))) (\<lambda>segmentIndex.
     thenJ (modifyJ (setHiddenState sv sel))
    (bindJ (\<lambda>s. let (removed, kept) = splice_js (segmentIndex + 1) None [] (segments (heap s sel))
                 in (Inr removed, setSegments sel kept s)) (\<lambda>postFixSegments.
     bindJ (readJ (\<lambda>s. getLastLatLng (segments (heap s sel)))) (\<lambda>startPoint.
     bindJ (case postFixSegments of [] \<Rightarrow> throwJ TypeError
            | seg0 # _ \<Rightarrow> returnJ (routingType seg0)) (\<lambda>rt.
     bindJ newObject (\<lambda>bridge.
     bindJ (readJ (\<lambda>s. Inr (name (heap s sel)))) (\<lambda>nm.
     thenJ (setData sv (Some
              [\<lparr>name = Str (toString nm @ resourceSplit sv),
                segments = snd (splice_js 0 (Some 0)
                  [\<lparr>segmentRef = bridge, latlngs = [startPoint, startPoint],
                    routePoint = startPoint, routingType = rt\<rparr>] postFixSegments),
                markers = []\<rparr>]))
    (thenJ (onSelected setEditRouteState)
           (onSelected raiseDataChanged))))))))))"

subsection \<open>Merge\<close>

text \<open>The loop of \<^verbatim>\<open>getClosestRoute\<close> over \<^verbatim>\<open>this.routes\<close>.\<close>

fun closestLoop ::
  "'p services \<Rightarrow> 'p routesService \<Rightarrow> nat \<Rightarrow> 'p option \<Rightarrow> nat list \<Rightarrow> jsError + nat option" where
  "closestLoop sv s sel p [] = Inr None"
| "closestLoop sv s sel p (routeLayer # rest) =
     (if routeLayer = sel \<or> length (segments (heap s routeLayer)) \<le> 0
      then closestLoop sv s sel p rest
      else (case getLastLatLng (segments (heap s routeLayer)) of
              Inl e \<Rightarrow> Inl e
            | Inr q \<Rightarrow>
               (case closerThanThreshold sv (Some q) p of
                  Inl e \<Rightarrow> Inl e
                | Inr True \<Rightarrow> Inr (Some routeLayer)
                | Inr False \<Rightarrow>
                   (case firstLatLng (segments (heap s routeLayer)) of
                      Inl e \<Rightarrow> Inl e
                    | Inr q0 \<Rightarrow>
                       (case closerThanThreshold sv q0 p of
                          Inl e \<Rightarrow> Inl e
                        | Inr True \<Rightarrow> Inr (Some routeLayer)
                        | Inr False \<Rightarrow> closestLoop sv s sel p rest)))))"

text \<open>
  The end of the selected route that a merge looks at:
  \<^verbatim>\<open>isFirst ? this.selectedRoute.route.segments[0].latlngs[0] : this.selectedRoute.getLastLatLng()\<close>.
\<close>

definition latLngToCheck :: "bool \<Rightarrow> nat \<Rightarrow> 'p routesService \<Rightarrow> jsError + 'p option" where
  "latLngToCheck isFirst sel s =
     (if isFirst then firstLatLng (segments (heap s sel))
      else map_sum id Some (getLastLatLng (segments (heap s sel))))"

definition getClosestRoute :: "'p services \<Rightarrow> bool \<Rightarrow> 'p routesService \<Rightarrow> jsError + nat option" where
  "getClosestRoute sv isFirst s =
     (case selectedRoute s of
        None \<Rightarrow> Inl TypeError
      | Some sel \<Rightarrow>
         (case latLngToCheck isFirst sel s of
            Inl e \<Rightarrow> Inl e
          | Inr p \<Rightarrow> closestLoop sv s sel p (routes s)))"

text \<open>
  Modelled from the spec: \<^verbatim>\<open>RouteLayer.reverse\<close>, which by the spec reverses the order
  of the segments and of the points of each, and moves the routing types along.  The
  spec gives no formula for the last part, so the function on the segment list is the
  parameter \<open>reverseSegments\<close>; the layer behind the reference gets its result.
\<close>

definition reverse :: "'p services \<Rightarrow> nat \<Rightarrow> 'p routesService \<Rightarrow> 'p routesService" where
  "reverse sv r s = setSegments r (reverseSegments sv (segments (heap s r))) s"

text \<open>The branch \<^verbatim>\<open>if (isFirst)\<close> of the merge, for the closest route \<open>c\<close>.\<close>

definition mergeFirst ::
  "'p services \<Rightarrow> nat \<Rightarrow> nat \<Rightarrow> 'p option \<Rightarrow> (unit, 'p routesService) js" where
  "mergeFirst sv c sel p =
     bindJ (readJ (\<lambda>s. case firstLatLng (segments (heap s c)) of
                          Inl e \<Rightarrow> Inl e
                        | Inr q0 \<Rightarrow> closerThanThreshold sv q0 p)) (\<lambda>near.
     thenJ (modifyJ (\<lambda>s. if near then reverse sv c s else s))
    (thenJ (modifyJ (\<lambda>s. setSegments sel (snd (splice_js 0 (Some 1) [] (segments (heap s sel)))) s))
    (bindJ (readJ (\<lambda>s. case segments (heap s sel) of
                          [] \<Rightarrow> Inl TypeError
                        | seg0 # rest \<Rightarrow>
                            (case getLastLatLng (segments (heap s c)) of
                               Inl e \<Rightarrow> Inl e
                             | Inr q \<Rightarrow> Inr (seg0, rest, q)))) (\<lambda>(seg0, rest, q).
     thenJ (modifyJ (setSegments sel
              (seg0\<lparr>latlngs := snd (splice_js 0 (Some 0) [q] (latlngs seg0))\<rparr> # rest)))
           (modifyJ (\<lambda>s. setSegments sel
              (snd (splice_js 0 (Some 0) (segments (heap s c)) (segments (heap s sel)))) s))))))"

text \<open>The branch \<^verbatim>\<open>else\<close>: merging at the last point.\<close>

definition mergeLast ::
  "'p services \<Rightarrow> nat \<Rightarrow> nat \<Rightarrow> 'p option \<Rightarrow> (unit, 'p routesService) js" where
  "mergeLast sv c sel p =
     bindJ (readJ (\<lambda>s. case getLastLatLng (segments (heap s c)) of
                          Inl e \<Rightarrow> Inl e
                        | Inr q \<Rightarrow> closerThanThreshold sv (Some q) p)) (\<lambda>near.
     thenJ (modifyJ (\<lambda>s. if near then reverse sv c s else s))
    (thenJ (modifyJ (\<lambda>s. setSegments c (snd (splice_js 0 (Some 1) [] (segments (heap s c)))) s))
    (bindJ (readJ (\<lambda>s. case segments (heap s c) of
                          [] \<Rightarrow> Inl TypeError
                        | seg0 # rest \<Rightarrow>
                            (case getLastLatLng (segments (heap s sel)) of
                               Inl e \<Rightarrow> Inl e
                             | Inr q \<Rightarrow> Inr (seg0, rest, q)))) (\<lambda>(seg0, rest, q).
     thenJ (modifyJ (setSegments c
              (seg0\<lparr>latlngs := snd (splice_js 0 (Some 0) [q] (latlngs seg0))\<rparr> # rest)))
           (modifyJ (\<lambda>s. setSegments sel (segments (heap s sel) @ segments (heap s c)) s))))))"

definition mergeSelectedRouteToClosest :: "'p services \<Rightarrow> bool \<Rightarrow> (unit, 'p routesService) js" where
  "mergeSelectedRouteToClosest sv isFirst =
     bindJ (readJ (getClosestRoute sv isFirst)) (\<lambda>closestRoute.
     thenJ (onSelected (setHiddenState sv))
    (bindJ (nonNull closestRoute) (\<lambda>c.
     thenJ (modifyJ (\<lambda>s. removeRoute (name (heap s c)) s))
    (bindJ (readJ (\<lambda>s. Inr (markers (heap s c)))) (\<lambda>markersToAdd.
     thenJ (onSelected (\<lambda>sel s. setMarkers sel (markers (heap s sel) @ markersToAdd) s))
    (bindJ theSelected (\<lambda>sel.
     bindJ (readJ (latLngToCheck isFirst sel)) (\<lambda>p.
     thenJ (if isFirst then mergeFirst sv c sel p else mergeLast sv c sel p)
    (thenJ (onSelected setEditRouteState)
           (onSelected raiseDataChanged))))))))))"

subsection \<open>A world on a line, for examples\<close>

text \<open>
  Points are reals, the distance between two points is the absolute difference,
  the factory hands over hidden layers in the edit mode Route, a hidden layer has the
  edit mode None, setting another edit mode than None puts a layer into Edit state, and
  reversing a route reverses its segments and the points of each.
\<close>

definition lineServices :: "real services" where
  "lineServices =
     \<lparr>resourceRoute = js ''Route'', resourceSplit = js '' Split'',
      availableIconTypes = [js ''star''], distanceTo = (\<lambda>a b. \<bar>a - b\<bar>),
      factoryState = Hidden, factoryEditMode = ''Route'',
      editModeWhenHidden = (\<lambda>_. ''None''),
      stateOfEditMode = (\<lambda>m st. if m = ''None'' then st else Edit),
      reverseSegments = (\<lambda>segs. rev (map (\<lambda>g. g\<lparr>latlngs := rev (latlngs g)\<rparr>) segs))\<rparr>"

definition blankLayer :: "real routeLayer" where
  "blankLayer =
     \<lparr>name = Undefined, segments = [], markers = [], isVisible = False,
      state = Hidden, editMode = [], dataChanged = 0\<rparr>"

definition emptyManager :: "real routesService" where
  "emptyManager = newRoutesService blankLayer"

text \<open>
  A segment object with the reference \<open>i\<close>.  The segments of the examples are made by
  the caller, with references from 100 on, apart from those of the manager.
\<close>

definition hike :: "nat \<Rightarrow> real list \<Rightarrow> real segment" where
  "hike i ps = \<lparr>segmentRef = i, latlngs = ps, routePoint = last ps, routingType = ''Hike''\<rparr>"

definition star :: "real \<Rightarrow> real marker" where
  "star p = \<lparr>latlng = p, title = ''m'', iconType = Str (js ''star'')\<rparr>"

definition namedRoute :: "string \<Rightarrow> real segment list \<Rightarrow> real marker list \<Rightarrow> real route" where
  "namedRoute n segs ms = \<lparr>name = Str (js n), segments = segs, markers = ms, isVisible = True\<rparr>"

definition twoRoutes :: "real routesService" where
  "twoRoutes = addRoute lineServices (namedRoute ''Route 2'' [] [])
                 (addRoute lineServices (namedRoute ''Route 1'' [] []) emptyManager)"

text \<open>
  Two routes on the line: A runs from 0 to 100, B starts at 120 with the zero-length
  segment a route begins with and runs to 300.  In \<open>routesAB\<close> both are in the
  collection and A is selected.
\<close>

definition routeA :: "real route" where
  "routeA = namedRoute ''A'' [hike 100 [0, 100]] [star 1]"

definition routeB :: "real route" where
  "routeB = namedRoute ''B'' [hike 101 [120, 120], hike 102 [120, 300]] [star 2, star 3]"

definition routesAB :: "real routesService" where
  "routesAB = changeRouteState 0
     (addRoute lineServices routeB (addRoute lineServices routeA emptyManager))"

text \<open>The same collection as it is before A is selected again: B is selected.\<close>

definition routesABselectedB :: "real routesService" where
  "routesABselectedB = addRoute lineServices routeB (addRoute lineServices routeA emptyManager)"




text \<open>A with a route B that has a single segment, A selected.\<close>

definition routeB1 :: "real route" where
  "routeB1 = namedRoute ''B'' [hike 102 [120, 300]] [star 2, star 3]"

definition routesAB1 :: "real routesService" where
  "routesAB1 = changeRouteState 0
     (addRoute lineServices routeB1 (addRoute lineServices routeA emptyManager))"

text \<open>Two routes of the same name, added one after the other.\<close>

definition twins :: "real routesService" where
  "twins = addRoute lineServices (namedRoute ''Route'' [] [])
             (addRoute lineServices (namedRoute ''Route'' [] []) emptyManager)"

text \<open>Route 1 and Route 2, and then an import of one more route called Route 1.\<close>

definition afterImport :: "real routesService" where
  "afterImport = snd (setData lineServices
     (Some [\<lparr>name = Str (js ''Route 1''), segments = [hike 100 [0, 1]], markers = []\<rparr>]) twoRoutes)"

text \<open>A route called Day 2 hike, imported twice into an empty manager.\<close>

definition dayHike :: "nat \<Rightarrow> real routeData" where
  "dayHike i = \<lparr>name = Str (js ''Day 2 hike''), segments = [hike i [0, 1]], markers = []\<rparr>"

definition importedTwice :: "real routesService" where
  "importedTwice = snd (setData lineServices (Some [dayHike 101])
                     (snd (setData lineServices (Some [dayHike 100]) emptyManager)))"

text \<open>A, selected, and after it a route like B that is also called A.\<close>

definition namesakes :: "real routesService" where
  "namesakes = changeRouteState 0
     (addRoute lineServices (routeB\<lparr>name := Str (js ''A'')\<rparr>) (addRoute lineServices routeA emptyManager))"

text \<open>A marker whose icon type is not in the table of icon types.\<close>

definition flag :: "real \<Rightarrow> real marker" where
  "flag p = \<lparr>latlng = p, title = ''f'', iconType = Str (js ''flag'')\<rparr>"

text \<open>A payload of one route that has two markers and no segment.\<close>

definition markerPayload :: "real routeData" where
  "markerPayload = \<lparr>name = Undefined, segments = [], markers = [star 7, flag 8]\<rparr>"

subsection \<open>Notions used in the statements\<close>

text \<open>A space followed by a digit, somewhere in the text.\<close>

fun hasSpaceDigit :: "jsText \<Rightarrow> bool" where
  "hasSpaceDigit (c # d # rest) = ((c = 0x20 \<and> isDigit d) \<or> hasSpaceDigit (d # rest))"
| "hasSpaceDigit _ = False"

text \<open>
  The spec's words for the stripping step: a trailing suffix made of a space and a
  number is removed, and a base without such a suffix stays as it is.
\<close>

definition stripTrailingNumber :: "jsText \<Rightarrow> jsText" where
  "stripTrailingNumber base =
     (let ds = takeWhile isDigit (rev base); front = dropWhile isDigit (rev base)
      in if ds \<noteq> [] \<and> front \<noteq> [] \<and> hd front = 0x20 then rev (tl front) else base)"

text \<open>
  An end of a route lies within the merge threshold of the point \<open>p\<close>: its last point
  or its first point is less than 50 meters away.
\<close>

definition endpointWithin :: "'p services \<Rightarrow> 'p \<Rightarrow> 'p segment list \<Rightarrow> bool" where
  "endpointWithin sv p segs =
     ((case getLastLatLng segs of Inr q \<Rightarrow> distanceTo sv q p < MERGE_THRESHOLD | Inl _ \<Rightarrow> False)
      \<or> (case firstLatLng segs of Inr (Some q) \<Rightarrow> distanceTo sv q p < MERGE_THRESHOLD
          | _ \<Rightarrow> False))"

text \<open>
  The end of the selected route that the search for the closest route looks at: its
  first point when \<open>isFirst\<close>, its last point otherwise.
\<close>

definition selectedEnd :: "bool \<Rightarrow> 'p segment list \<Rightarrow> 'p" where
  "selectedEnd isFirst segs =
     (if isFirst then hd (latlngs (hd segs)) else last (latlngs (last segs)))"

text \<open>
  The candidates of the search for the closest route: another route than the selected
  one, with segments, one of whose ends is within the threshold.
\<close>

definition mergeCandidate :: "'p services \<Rightarrow> 'p routesService \<Rightarrow> nat \<Rightarrow> 'p \<Rightarrow> nat \<Rightarrow> bool" where
  "mergeCandidate sv s sel p r =
     (r \<noteq> sel \<and> segments (heap s r) \<noteq> [] \<and> endpointWithin sv p (segments (heap s r)))"

text \<open>Every segment has points, as the data model of the spec demands.\<close>

definition pointsPresent :: "'p segment list \<Rightarrow> bool" where
  "pointsPresent segs = list_all (\<lambda>g. latlngs g \<noteq> []) segs"

text \<open>
  The route that a marker-only import goes to: the selected route, or the first route
  of the collection when none is selected.
\<close>

definition importTarget :: "'p routesService \<Rightarrow> nat" where
  "importTarget s = (case selectedRoute s of None \<Rightarrow> routes s ! 0 | Some sel \<Rightarrow> sel)"

text \<open>
  The states that insertions lead to from an empty manager: \<^verbatim>\<open>addRoute\<close> with a name
  that \<^verbatim>\<open>isNameAvailable\<close> accepts at the time of the call, and \<^verbatim>\<open>setData\<close> with any
  payload, whether it returns or throws.
\<close>

inductive insertionsLeadTo :: "'p services \<Rightarrow> 'p routesService \<Rightarrow> bool" for sv where
  fromEmpty: "insertionsLeadTo sv (newRoutesService blank)"
| byAddRoute: "insertionsLeadTo sv s \<Longrightarrow> isNameAvailable (name rt) s \<Longrightarrow>
     insertionsLeadTo sv (addRoute sv rt s)"
| bySetData: "insertionsLeadTo sv s \<Longrightarrow> insertionsLeadTo sv (snd (setData sv payload s))"

text \<open>Names pairwise distinct, and every route of the collection an object made so far.\<close>

definition namesDistinct :: "'p routesService \<Rightarrow> bool" where
  "namesDistinct s = (distinct (routeNames s) \<and> list_all (\<lambda>r. r < nextRef s) (routes s))"

text \<open>
  The states that the operations of the manager lead to from an empty manager, with
  any arguments, whether an operation returns or throws.
\<close>

inductive reachable :: "'p services \<Rightarrow> 'p routesService \<Rightarrow> bool" for sv where
  initially: "reachable sv (newRoutesService blank)"
| afterAddRoute: "reachable sv s \<Longrightarrow> reachable sv (addRoute sv rt s)"
| afterRemoveRoute: "reachable sv s \<Longrightarrow> reachable sv (removeRoute n s)"
| afterChangeRouteState: "reachable sv s \<Longrightarrow> reachable sv (changeRouteState r s)"
| afterSetData: "reachable sv s \<Longrightarrow> reachable sv (snd (setData sv payload s))"
| afterSplit: "reachable sv s \<Longrightarrow> reachable sv (snd (splitSelectedRouteAt sv seg s))"
| afterMerge: "reachable sv s \<Longrightarrow> reachable sv (snd (mergeSelectedRouteToClosest sv isFirst s))"

text \<open>
  The invariant behind the single route in Edit state: the collection holds no
  reference twice, holds only objects made so far, and a route of the collection in
  Edit state is the selected one.
\<close>

definition editOnlySelected :: "'p routesService \<Rightarrow> bool" where
  "editOnlySelected s =
     (distinct (routes s) \<and> list_all (\<lambda>r. r < nextRef s) (routes s)
      \<and> list_all (\<lambda>r. state (heap s r) = Edit \<longrightarrow> selectedRoute s = Some r) (routes s))"

text \<open>An operation keeps a property of the state, whether it returns or throws.\<close>

definition keepsJ :: "('s \<Rightarrow> bool) \<Rightarrow> ('a, 's) js \<Rightarrow> bool" where
  "keepsJ I m = (\<forall>s. I s \<longrightarrow> I (snd (m s)))"

text \<open>
  Compared with \<open>s0\<close>, the state has the same collection, the same selection, and
  the same name and markers in every layer.
\<close>

definition sameNamesMarkers :: "'p routesService \<Rightarrow> 'p routesService \<Rightarrow> bool" where
  "sameNamesMarkers s0 s =
     (routes s = routes s0 \<and> selectedRoute s = selectedRoute s0
      \<and> (\<forall>r. name (heap s r) = name (heap s0 r) \<and> markers (heap s r) = markers (heap s0 r)))"

section \<open>Properties\<close>

subsection \<open>Evaluating operations\<close>

lemma bindJ_Inr [simp]: "m s = (Inr x, s') \<Longrightarrow> bindJ m f s = f x s'"
  by (simp add: bindJ_def)

lemma bindJ_Inl [simp]: "m s = (Inl e, s') \<Longrightarrow> bindJ m f s = (Inl e, s')"
  by (simp add: bindJ_def)

lemma thenJ_Inr [simp]: "m s = (Inr x, s') \<Longrightarrow> thenJ m n s = n s'"
  by (simp add: thenJ_def)

lemma thenJ_Inl [simp]: "m s = (Inl e, s') \<Longrightarrow> thenJ m n s = (Inl e, s')"
  by (simp add: thenJ_def)

lemma returnJ_apply [simp]: "returnJ x s = (Inr x, s)"
  by (simp add: returnJ_def)

lemma throwJ_apply [simp]: "throwJ e s = (Inl e, s)"
  by (simp add: throwJ_def)

lemma modifyJ_apply [simp]: "modifyJ f s = (Inr (), f s)"
  by (simp add: modifyJ_def)

lemma readJ_apply [simp]: "readJ f s = (f s, s)"
  by (simp add: readJ_def)

lemma theSelected_apply [simp]:
  "theSelected s =
     (case selectedRoute s of None \<Rightarrow> (Inl TypeError, s) | Some sel \<Rightarrow> (Inr sel, s))"
  by (simp add: theSelected_def)

subsection \<open>What the basic steps change\<close>

lemma updateLayer_fields [simp]:
  "heap (updateLayer r f s) = (heap s)(r := f (heap s r))"
  "routes (updateLayer r f s) = routes s"
  "selectedRoute (updateLayer r f s) = selectedRoute s"
  "nextRef (updateLayer r f s) = nextRef s"
  "mapLayers (updateLayer r f s) = mapLayers s"
  "routeChanged (updateLayer r f s) = routeChanged s"
  by (simp_all add: updateLayer_def)

lemma emptyManager_fields:
  "routes emptyManager = []" "nextRef emptyManager = 0" "selectedRoute emptyManager = None"
  by (simp_all add: emptyManager_def newRoutesService_def)

lemma selectRoute_fields [simp]:
  "routes (selectRoute x s) = routes s"
  "selectedRoute (selectRoute x s) = x"
  "nextRef (selectRoute x s) = nextRef s"
  "mapLayers (selectRoute x s) = mapLayers s"
  "heap (selectRoute x s) = (case selectedRoute s of None \<Rightarrow> heap s
       | Some sel \<Rightarrow> (heap s)(sel := (heap s sel)\<lparr>state := ReadOnly\<rparr>))"
  by (simp_all add: selectRoute_def setReadOnlyState_def Let_def split: option.splits)

lemma addRoute_fields:
  "routes (addRoute sv rt s) = routes s @ [nextRef s]"
  "nextRef (addRoute sv rt s) = nextRef s + 1"
  "selectedRoute (addRoute sv rt s) = Some (nextRef s)"
  "name (heap (addRoute sv rt s) r) = (if r = nextRef s then name rt else name (heap s r))"
  "segments (heap (addRoute sv rt s) r) = (if r = nextRef s then segments rt else segments (heap s r))"
  "markers (heap (addRoute sv rt s) r) = (if r = nextRef s then markers rt else markers (heap s r))"
  "state (heap (addRoute sv rt s) r) =
     (if selectedRoute s = Some r then ReadOnly else if r = nextRef s then Edit else state (heap s r))"
  by (simp_all add: addRoute_def createRouteLayer_def
      setEditRouteState_def addLayer_def Let_def split: option.splits)

lemma setter_frame [simp]:
  "routes (setHiddenState sv r s) = routes s" "selectedRoute (setHiddenState sv r s) = selectedRoute s"
  "nextRef (setHiddenState sv r s) = nextRef s" "mapLayers (setHiddenState sv r s) = mapLayers s"
  "routes (setReadOnlyState r s) = routes s" "selectedRoute (setReadOnlyState r s) = selectedRoute s"
  "nextRef (setReadOnlyState r s) = nextRef s" "mapLayers (setReadOnlyState r s) = mapLayers s"
  "routes (setEditRouteState r s) = routes s" "selectedRoute (setEditRouteState r s) = selectedRoute s"
  "nextRef (setEditRouteState r s) = nextRef s" "mapLayers (setEditRouteState r s) = mapLayers s"
  "routes (setEditMode sv r m s) = routes s" "selectedRoute (setEditMode sv r m s) = selectedRoute s"
  "nextRef (setEditMode sv r m s) = nextRef s" "mapLayers (setEditMode sv r m s) = mapLayers s"
  "routes (raiseDataChanged r s) = routes s" "selectedRoute (raiseDataChanged r s) = selectedRoute s"
  "nextRef (raiseDataChanged r s) = nextRef s" "mapLayers (raiseDataChanged r s) = mapLayers s"
  "routes (setSegments r segs s) = routes s" "selectedRoute (setSegments r segs s) = selectedRoute s"
  "nextRef (setSegments r segs s) = nextRef s" "mapLayers (setSegments r segs s) = mapLayers s"
  "routes (setMarkers r ms s) = routes s" "selectedRoute (setMarkers r ms s) = selectedRoute s"
  "nextRef (setMarkers r ms s) = nextRef s" "mapLayers (setMarkers r ms s) = mapLayers s"
  "routes (reverse sv r s) = routes s" "selectedRoute (reverse sv r s) = selectedRoute s"
  "nextRef (reverse sv r s) = nextRef s" "mapLayers (reverse sv r s) = mapLayers s"
  by (simp_all add: setHiddenState_def setReadOnlyState_def setEditRouteState_def
      setEditMode_def raiseDataChanged_def setSegments_def setMarkers_def reverse_def)

lemma setter_name [simp]:
  "name (heap (setHiddenState sv r s) x) = name (heap s x)"
  "name (heap (setReadOnlyState r s) x) = name (heap s x)"
  "name (heap (setEditRouteState r s) x) = name (heap s x)"
  "name (heap (setEditMode sv r m s) x) = name (heap s x)"
  "name (heap (raiseDataChanged r s) x) = name (heap s x)"
  "name (heap (setSegments r segs s) x) = name (heap s x)"
  "name (heap (setMarkers r ms s) x) = name (heap s x)"
  "name (heap (reverse sv r s) x) = name (heap s x)"
  by (simp_all add: setHiddenState_def setReadOnlyState_def setEditRouteState_def
      setEditMode_def raiseDataChanged_def setSegments_def setMarkers_def reverse_def)

lemma setter_segments [simp]:
  "segments (heap (setHiddenState sv r s) x) = segments (heap s x)"
  "segments (heap (setReadOnlyState r s) x) = segments (heap s x)"
  "segments (heap (setEditRouteState r s) x) = segments (heap s x)"
  "segments (heap (setEditMode sv r m s) x) = segments (heap s x)"
  "segments (heap (raiseDataChanged r s) x) = segments (heap s x)"
  "segments (heap (setSegments r segs s) x) = (if x = r then segs else segments (heap s x))"
  "segments (heap (setMarkers r ms s) x) = segments (heap s x)"
  "segments (heap (reverse sv r s) x)
     = (if x = r then reverseSegments sv (segments (heap s r)) else segments (heap s x))"
  by (simp_all add: setHiddenState_def setReadOnlyState_def setEditRouteState_def
      setEditMode_def raiseDataChanged_def setSegments_def setMarkers_def reverse_def)

lemma setter_markers [simp]:
  "markers (heap (setHiddenState sv r s) x) = markers (heap s x)"
  "markers (heap (setReadOnlyState r s) x) = markers (heap s x)"
  "markers (heap (setEditRouteState r s) x) = markers (heap s x)"
  "markers (heap (setEditMode sv r m s) x) = markers (heap s x)"
  "markers (heap (raiseDataChanged r s) x) = markers (heap s x)"
  "markers (heap (setSegments r segs s) x) = markers (heap s x)"
  "markers (heap (setMarkers r ms s) x) = (if x = r then ms else markers (heap s x))"
  "markers (heap (reverse sv r s) x) = markers (heap s x)"
  by (simp_all add: setHiddenState_def setReadOnlyState_def setEditRouteState_def
      setEditMode_def raiseDataChanged_def setSegments_def setMarkers_def reverse_def)

lemma setter_state [simp]:
  "state (heap (setHiddenState sv r s) x) = (if x = r then Hidden else state (heap s x))"
  "state (heap (setReadOnlyState r s) x) = (if x = r then ReadOnly else state (heap s x))"
  "state (heap (setEditRouteState r s) x) = (if x = r then Edit else state (heap s x))"
  "state (heap (setEditMode sv r m s) x)
     = (if x = r then stateOfEditMode sv m (state (heap s r)) else state (heap s x))"
  "state (heap (raiseDataChanged r s) x) = state (heap s x)"
  "state (heap (setSegments r segs s) x) = state (heap s x)"
  "state (heap (setMarkers r ms s) x) = state (heap s x)"
  "state (heap (reverse sv r s) x) = state (heap s x)"
  by (simp_all add: setHiddenState_def setReadOnlyState_def setEditRouteState_def
      setEditMode_def raiseDataChanged_def setSegments_def setMarkers_def reverse_def)

lemma setter_editMode [simp]:
  "editMode (heap (setHiddenState sv r s) x)
     = (if x = r then editModeWhenHidden sv (editMode (heap s r)) else editMode (heap s x))"
  "editMode (heap (setEditMode sv r m s) x) = (if x = r then m else editMode (heap s x))"
  "editMode (heap (setMarkers r ms s) x) = editMode (heap s x)"
  by (simp_all add: setHiddenState_def setEditMode_def setMarkers_def)

lemma onSelected_apply [simp]:
  "onSelected f s =
     (case selectedRoute s of None \<Rightarrow> (Inl TypeError, s) | Some sel \<Rightarrow> (Inr (), f sel s))"
  by (simp add: onSelected_def split: option.splits)

subsection \<open>Properties that every step keeps\<close>

lemma keepsJ_returnJ [intro!]: "keepsJ I (returnJ x)"
  by (simp add: keepsJ_def)

lemma keepsJ_throwJ [intro!]: "keepsJ I (throwJ e)"
  by (simp add: keepsJ_def)

lemma keepsJ_readJ [intro!]: "keepsJ I (readJ f)"
  by (simp add: keepsJ_def)

lemma keepsJ_nonNull [intro!]: "keepsJ I (nonNull x)"
  by (cases x) (simp_all add: keepsJ_def nonNull_def)

lemma keepsJ_theSelected [intro!]: "keepsJ I theSelected"
  by (simp add: keepsJ_def split: option.splits)

lemma keepsJ_modifyJ: "(\<And>s. I s \<Longrightarrow> I (f s)) \<Longrightarrow> keepsJ I (modifyJ f)"
  by (simp add: keepsJ_def)

lemma keepsJ_bindJ: "keepsJ I m \<Longrightarrow> (\<And>x. keepsJ I (f x)) \<Longrightarrow> keepsJ I (bindJ m f)"
  by (auto simp: keepsJ_def bindJ_def split: prod.splits sum.splits)

lemma keepsJ_thenJ: "keepsJ I m \<Longrightarrow> keepsJ I n \<Longrightarrow> keepsJ I (thenJ m n)"
  by (simp add: thenJ_def keepsJ_bindJ)

lemma keepsJ_onSelected:
  "(\<And>sel s. I s \<Longrightarrow> selectedRoute s = Some sel \<Longrightarrow> I (f sel s)) \<Longrightarrow> keepsJ I (onSelected f)"
  by (simp add: keepsJ_def split: option.splits)

lemma keepsJ_apply: "keepsJ I m \<Longrightarrow> I s \<Longrightarrow> I (snd (m s))"
  by (simp add: keepsJ_def)

lemma sameNamesMarkers_refl: "sameNamesMarkers s s"
  by (simp add: sameNamesMarkers_def)

lemma sameNamesMarkers_steps:
  "sameNamesMarkers s0 s \<Longrightarrow> sameNamesMarkers s0 (setSegments r segs s)"
  "sameNamesMarkers s0 s \<Longrightarrow> sameNamesMarkers s0 (reverse sv r s)"
  "sameNamesMarkers s0 s \<Longrightarrow> sameNamesMarkers s0 (setEditRouteState r s)"
  "sameNamesMarkers s0 s \<Longrightarrow> sameNamesMarkers s0 (raiseDataChanged r s)"
  by (simp_all add: sameNamesMarkers_def)

lemma keepsJ_mergeFirst: "keepsJ (sameNamesMarkers s0) (mergeFirst sv c sel p)"
  unfolding mergeFirst_def
  by (intro keepsJ_bindJ keepsJ_thenJ keepsJ_modifyJ keepsJ_readJ)
     (auto simp: sameNamesMarkers_steps split: prod.splits intro!: keepsJ_thenJ keepsJ_modifyJ)

lemma keepsJ_mergeLast: "keepsJ (sameNamesMarkers s0) (mergeLast sv c sel p)"
  unfolding mergeLast_def
  by (intro keepsJ_bindJ keepsJ_thenJ keepsJ_modifyJ keepsJ_readJ)
     (auto simp: sameNamesMarkers_steps split: prod.splits intro!: keepsJ_thenJ keepsJ_modifyJ)

subsection \<open>Import of nothing\<close>

text \<open>
  C10.  \<^verbatim>\<open>setData\<close> called with \<^verbatim>\<open>null\<close> or with an empty list of routes returns at once
  and leaves the whole state as it was: the collection, the selection and every layer.
\<close>

theorem setData_nothing:
  "setData sv None s = (Inr (), s) \<and> setData sv (Some []) s = (Inr (), s)"
  by (simp add: setData_def)

subsection \<open>Route names\<close>

lemma matchSuffix_None: "\<not> hasSpaceDigit t \<Longrightarrow> matchSuffix t = None"
  by (cases t rule: matchSuffix.cases) auto

lemma hasSpaceDigit_tail: "\<not> hasSpaceDigit (c # cs) \<Longrightarrow> \<not> hasSpaceDigit cs"
  by (cases cs) auto

lemma matchAt_None: "\<not> hasSpaceDigit t \<Longrightarrow> matchAt t = None"
proof (induction t)
  case Nil
  then show ?case by simp
next
  case (Cons c cs)
  from Cons.prems have "\<not> hasSpaceDigit cs" by (rule hasSpaceDigit_tail)
  with Cons.IH have "matchAt cs = None" by simp
  moreover from Cons.prems have "matchSuffix (c # cs) = None" by (rule matchSuffix_None)
  ultimately show ?case by simp
qed

lemma replaceNumber_unchanged: "\<not> hasSpaceDigit t \<Longrightarrow> replaceNumber t = t"
proof (induction t)
  case Nil
  then show ?case by simp
next
  case (Cons c cs)
  from Cons.prems have "\<not> hasSpaceDigit cs" by (rule hasSpaceDigit_tail)
  with Cons.IH have "replaceNumber cs = cs" by simp
  moreover from Cons.prems have "matchAt (c # cs) = None" by (rule matchAt_None)
  ultimately show ?case by simp
qed

lemma space_not_digit: "\<not> isDigit 0x20"
  by (simp add: isDigit_def)

lemma hasSpaceDigit_digits:
  "\<forall>c\<in>set ds. isDigit c \<Longrightarrow> hasSpaceDigit (ds @ rest) = hasSpaceDigit rest"
proof (induction ds)
  case Nil
  then show ?case by simp
next
  case (Cons d ds)
  then have d: "d \<noteq> 0x20" using space_not_digit by auto
  from Cons have ih: "hasSpaceDigit (ds @ rest) = hasSpaceDigit rest" by simp
  show ?case
  proof (cases "ds @ rest")
    case Nil
    then show ?thesis by simp
  next
    case (Cons e es)
    with d ih show ?thesis by simp
  qed
qed

lemma dropWhile_digits:
  "\<forall>c\<in>set ds. isDigit c \<Longrightarrow> rest = [] \<or> \<not> isDigit (hd rest) \<Longrightarrow>
   dropWhile isDigit (ds @ rest) = rest"
  by (cases rest) (simp_all add: dropWhile_append)

lemma matchAt_number:
  assumes "\<forall>c\<in>set x. \<not> isLineTerminator c" and "ds \<noteq> []" and "\<forall>c\<in>set ds. isDigit c"
    and "rest = [] \<or> \<not> isDigit (hd rest)" and "\<not> hasSpaceDigit rest"
  shows "matchAt (x @ 0x20 # ds @ rest) = Some (x, rest)"
  using assms(1)
proof (induction x)
  case Nil
  from assms(2) obtain d ds' where ds: "ds = d # ds'" by (cases ds) auto
  from assms(3,5) have "\<not> hasSpaceDigit (ds @ rest)" by (simp add: hasSpaceDigit_digits)
  then have "matchAt (ds @ rest) = None" by (rule matchAt_None)
  moreover from assms(3,4) ds have "dropWhile isDigit (ds' @ rest) = rest"
    by (intro dropWhile_digits) auto
  moreover from assms(3) ds have "isDigit d" by simp
  ultimately show ?case using ds by (simp add: isLineTerminator_def)
next
  case (Cons c x)
  then show ?case by simp
qed

lemma replaceNumber_number:
  assumes "\<forall>c\<in>set x. \<not> isLineTerminator c" and "ds \<noteq> []" and "\<forall>c\<in>set ds. isDigit c"
    and "rest = [] \<or> \<not> isDigit (hd rest)" and "\<not> hasSpaceDigit rest"
  shows "replaceNumber (x @ 0x20 # ds @ rest) = x @ rest"
proof -
  have "matchAt (x @ 0x20 # ds @ rest) = Some (x, rest)"
    using assms by (rule matchAt_number)
  then show ?thesis by (cases x) simp_all
qed

lemma createRouteName_loop_result:
  "\<exists>k\<ge>index. createRouteName_loop names routeName index = candidateName routeName k
      \<and> \<not> nameInUse names (candidateName routeName k)
      \<and> (\<forall>j. index \<le> j \<and> j < k \<longrightarrow> nameInUse names (candidateName routeName j))"
proof (induction names routeName index rule: createRouteName_loop.induct)
  case (1 names routeName index)
  show ?case
  proof (cases "nameInUse names (candidateName routeName index)")
    case False
    then have "createRouteName_loop names routeName index = candidateName routeName index"
      by (subst createRouteName_loop.simps) simp
    with False show ?thesis by (intro exI[of _ index]) auto
  next
    case True
    from 1[OF True] obtain k where k: "index + 1 \<le> k"
      "createRouteName_loop names routeName (index + 1) = candidateName routeName k"
      "\<not> nameInUse names (candidateName routeName k)"
      "\<forall>j. index + 1 \<le> j \<and> j < k \<longrightarrow> nameInUse names (candidateName routeName j)"
      by blast
    from True have "createRouteName_loop names routeName index
        = createRouteName_loop names routeName (index + 1)"
      by (subst createRouteName_loop.simps) simp
    moreover have "\<forall>j. index \<le> j \<and> j < k \<longrightarrow> nameInUse names (candidateName routeName j)"
    proof (intro allI impI)
      fix j assume "index \<le> j \<and> j < k"
      then show "nameInUse names (candidateName routeName j)"
        using True k(4) by (cases "j = index") auto
    qed
    ultimately show ?thesis using k by (intro exI[of _ k]) auto
  qed
qed

lemma nameInUse_routeNames:
  "nameInUse (routeNames s) n = (Str n \<in> set (routeNames s))"
  by (auto simp: nameInUse_def list_ex_iff)

lemma getRouteByName_None: "(getRouteByName n s = None) = (n \<notin> set (routeNames s))"
  by (auto simp: getRouteByName_def routeNames_def find_None_iff)

lemma isNameAvailable_candidate:
  "isNameAvailable (Str (candidateName rn k)) s = (Str (candidateName rn k) \<notin> set (routeNames s))"
  by (simp add: isNameAvailable_def getRouteByName_None candidateName_def js_def)

text \<open>
  What \<^verbatim>\<open>createRouteName\<close> returns for every base string: the base after the pattern
  replacement, a space and the smallest integer \<open>k \<ge> 1\<close>, in decimal, for which no
  route of the collection bears the resulting name; \<^verbatim>\<open>isNameAvailable\<close> holds for the
  name returned.  The replacement leaves a base without a space followed by a digit as
  it is, and it removes a number at the end of a base that has no other number and no
  line break.
\<close>

lemma createRouteName_returns:
  "\<exists>k\<ge>1. createRouteName sv (Str base) s
            = Inr (replaceNumber base @ js '' '' @ numberToString k)
      \<and> isNameAvailable (Str (replaceNumber base @ js '' '' @ numberToString k)) s
      \<and> (\<forall>j. 1 \<le> j \<and> j < k \<longrightarrow>
             Str (replaceNumber base @ js '' '' @ numberToString j) \<in> set (routeNames s))"
  using createRouteName_loop_result[of 1 "routeNames s" "replaceNumber base"]
  by (simp add: createRouteName_def isNameAvailable_candidate nameInUse_routeNames
      flip: candidateName_def)

lemma replaceNumber_trailing:
  assumes "\<forall>c\<in>set x. \<not> isLineTerminator c" and "ds \<noteq> []" and "\<forall>c\<in>set ds. isDigit c"
  shows "replaceNumber (x @ js '' '' @ ds) = x"
  using replaceNumber_number[OF assms, of "[]"] by (simp add: js_def)

text \<open>The example of the claim: with Route 1 and Route 2 present, Route gives Route 3.\<close>

lemma routeNames_twoRoutes: "routeNames twoRoutes = [Str (js ''Route 1''), Str (js ''Route 2'')]"
  by (simp add: twoRoutes_def routeNames_def namedRoute_def addRoute_fields emptyManager_fields)

lemma createRouteName_example:
  "createRouteName lineServices (Str (js ''Route'')) twoRoutes = Inr (js ''Route 3'')"
  by code_simp

text \<open>
  C3.  By the claim \<^verbatim>\<open>createRouteName\<close> strips a number at the end of the base, the
  index that an earlier call has appended, and nothing else.  The pattern of the code
  has no anchor at the end of the text, so it removes the last group of a space and
  digits wherever it stands.  The base Day 2 hike ends in no number: by the words of
  the claim it stays whole and the name for an empty collection is Day 2 hike 1; the
  code returns Day hike 1.  Importing a route called Day 2 hike twice reaches the call:
  the second route enters the collection as Day hike 1.
\<close>

theorem createRouteName_strips_inner_number:
  "createRouteName lineServices (Str (js ''Day 2 hike'')) emptyManager = Inr (js ''Day hike 1'')
   \<and> candidateName (stripTrailingNumber (js ''Day 2 hike'')) 1 = js ''Day 2 hike 1''
   \<and> routeNames importedTwice = [Str (js ''Day 2 hike''), Str (js ''Day hike 1'')]"
  by code_simp

subsection \<open>The closest route\<close>

lemma pointsPresent_ends:
  assumes "pointsPresent segs" and "segs \<noteq> []"
  shows "\<exists>q q0. getLastLatLng segs = Inr q \<and> firstLatLng segs = Inr (Some q0)"
proof -
  from assms obtain g gs where g: "segs = g # gs" by (cases segs) auto
  with assms(1) have "latlngs g \<noteq> []" by (simp add: pointsPresent_def)
  then obtain q0 qs where "latlngs g = q0 # qs" by (cases "latlngs g") auto
  with g have "firstLatLng segs = Inr (Some q0)" by (simp add: firstLatLng_def)
  moreover from assms have "latlngs (last segs) \<noteq> []"
    by (simp add: pointsPresent_def list_all_iff)
  with assms(2) have "getLastLatLng segs = Inr (last (latlngs (last segs)))"
    by (simp add: getLastLatLng_def)
  ultimately show ?thesis by blast
qed

lemma closestLoop_find:
  "\<forall>r\<in>set rs. r \<noteq> sel \<longrightarrow> pointsPresent (segments (heap s r)) \<Longrightarrow>
   closestLoop sv s sel (Some p) rs = Inr (find (mergeCandidate sv s sel p) rs)"
proof (induction rs)
  case Nil
  then show ?case by simp
next
  case (Cons r rs)
  then have ih: "closestLoop sv s sel (Some p) rs = Inr (find (mergeCandidate sv s sel p) rs)"
    by simp
  show ?case
  proof (cases "r = sel \<or> segments (heap s r) = []")
    case True
    then have "\<not> mergeCandidate sv s sel p r" by (auto simp: mergeCandidate_def)
    with True ih show ?thesis by auto
  next
    case False
    with Cons.prems have "pointsPresent (segments (heap s r))" by simp
    with False obtain q q0 where
      "getLastLatLng (segments (heap s r)) = Inr q" "firstLatLng (segments (heap s r)) = Inr (Some q0)"
      using pointsPresent_ends by blast
    note ends = this
    from False ends have "mergeCandidate sv s sel p r
        = (distanceTo sv q p < MERGE_THRESHOLD \<or> distanceTo sv q0 p < MERGE_THRESHOLD)"
      by (simp add: mergeCandidate_def endpointWithin_def)
    with False ends ih show ?thesis
      by (cases "distanceTo sv q p < MERGE_THRESHOLD";
          cases "distanceTo sv q0 p < MERGE_THRESHOLD")
        (simp_all add: closerThanThreshold_def)
  qed
qed

lemma latLngToCheck_selectedEnd:
  assumes "segments (heap s sel) \<noteq> []" and "pointsPresent (segments (heap s sel))"
  shows "latLngToCheck isFirst sel s = Inr (Some (selectedEnd isFirst (segments (heap s sel))))"
proof -
  from assms obtain g gs where g: "segments (heap s sel) = g # gs"
    by (cases "segments (heap s sel)") auto
  with assms(2) have "latlngs g \<noteq> []" by (simp add: pointsPresent_def)
  then obtain q qs where q: "latlngs g = q # qs" by (cases "latlngs g") auto
  from assms have "latlngs (last (segments (heap s sel))) \<noteq> []"
    by (simp add: pointsPresent_def list_all_iff)
  with assms(1) g q show ?thesis
    by (simp add: latLngToCheck_def selectedEnd_def firstLatLng_def getLastLatLng_def)
qed

text \<open>
  C6.  Let a route be selected that has segments, and let every segment of it and of
  the other routes of the collection have points.  Then \<^verbatim>\<open>getClosestRoute(isFirst)\<close>
  compares the first point of the selected route when \<open>isFirst\<close>, and its last point
  otherwise, with the last and the first point of the other routes: it returns the
  first route in the order of the collection that is not the selected one, has
  segments, and has its last or its first point less than 50 meters from that point.
  It never returns the selected route, and it returns \<^verbatim>\<open>null\<close> when no other route has
  an end within the threshold.
\<close>

theorem getClosestRoute_first_candidate:
  assumes "selectedRoute s = Some sel"
    and "segments (heap s sel) \<noteq> []"
    and "pointsPresent (segments (heap s sel))"
    and "\<forall>r\<in>set (routes s). r \<noteq> sel \<longrightarrow> pointsPresent (segments (heap s r))"
  shows "getClosestRoute sv isFirst s
       = Inr (find (mergeCandidate sv s sel (selectedEnd isFirst (segments (heap s sel))))
                (routes s))
     \<and> getClosestRoute sv isFirst s \<noteq> Inr (Some sel)
     \<and> ((\<forall>r\<in>set (routes s). r \<noteq> sel \<longrightarrow>
            \<not> endpointWithin sv (selectedEnd isFirst (segments (heap s sel)))
                (segments (heap s r)))
          \<longrightarrow> getClosestRoute sv isFirst s = Inr None)"
proof -
  let ?p = "selectedEnd isFirst (segments (heap s sel))"
  have "latLngToCheck isFirst sel s = Inr (Some ?p)"
    using assms(2,3) by (rule latLngToCheck_selectedEnd)
  then have eq: "getClosestRoute sv isFirst s = Inr (find (mergeCandidate sv s sel ?p) (routes s))"
    using assms(1,4) by (simp add: getClosestRoute_def closestLoop_find)
  have "find (mergeCandidate sv s sel ?p) (routes s) \<noteq> Some sel"
    by (auto simp: find_Some_iff mergeCandidate_def)
  moreover have "(\<forall>r\<in>set (routes s). r \<noteq> sel \<longrightarrow> \<not> endpointWithin sv ?p (segments (heap s r)))
       \<longrightarrow> find (mergeCandidate sv s sel ?p) (routes s) = None"
    by (auto simp: find_None_iff mergeCandidate_def)
  ultimately show ?thesis using eq by simp
qed

theorem getClosestRoute_first_candidate_witness:
  "selectedRoute routesAB = Some 0 \<and> selectedRoute routesABselectedB = Some 1
   \<and> selectedEnd False (segments (heap routesAB 0)) = 100
   \<and> selectedEnd True (segments (heap routesABselectedB 1)) = 120
   \<and> pointsPresent (segments (heap routesAB 0)) \<and> pointsPresent (segments (heap routesAB 1))
   \<and> getClosestRoute lineServices False routesAB = Inr (Some 1)
   \<and> getClosestRoute lineServices True routesABselectedB = Inr (Some 0)
   \<and> getClosestRoute lineServices True routesAB = Inr None"
proof -
  have a1: "selectedRoute routesAB = Some 0" by code_simp
  have a2: "segments (heap routesAB 0) \<noteq> []" by code_simp
  have a3: "pointsPresent (segments (heap routesAB 0))" by code_simp
  have a4: "\<forall>r\<in>set (routes routesAB). r \<noteq> 0 \<longrightarrow> pointsPresent (segments (heap routesAB r))"
    by code_simp
  have a5: "pointsPresent (segments (heap routesAB 1))" by code_simp
  have b1: "selectedRoute routesABselectedB = Some 1" by code_simp
  have b2: "segments (heap routesABselectedB 1) \<noteq> []" by code_simp
  have b3: "pointsPresent (segments (heap routesABselectedB 1))" by code_simp
  have b4: "\<forall>r\<in>set (routes routesABselectedB). r \<noteq> 1 \<longrightarrow>
              pointsPresent (segments (heap routesABselectedB r))"
    by code_simp
  have e1: "selectedEnd False (segments (heap routesAB 0)) = 100" by code_simp
  have e2: "selectedEnd True (segments (heap routesABselectedB 1)) = 120" by code_simp
  have e3: "selectedEnd True (segments (heap routesAB 0)) = 0" by code_simp
  have f1: "find (mergeCandidate lineServices routesAB 0 100) (routes routesAB) = Some 1"
    by code_simp
  have f2: "find (mergeCandidate lineServices routesABselectedB 1 120) (routes routesABselectedB)
              = Some 0"
    by code_simp
  have f3: "find (mergeCandidate lineServices routesAB 0 0) (routes routesAB) = None"
    by code_simp
  from getClosestRoute_first_candidate[OF a1 a2 a3 a4, of lineServices False] e1 f1
  have r1: "getClosestRoute lineServices False routesAB = Inr (Some 1)" by simp
  from getClosestRoute_first_candidate[OF b1 b2 b3 b4, of lineServices True] e2 f2
  have r2: "getClosestRoute lineServices True routesABselectedB = Inr (Some 0)" by simp
  from getClosestRoute_first_candidate[OF a1 a2 a3 a4, of lineServices True] e3 f3
  have r3: "getClosestRoute lineServices True routesAB = Inr None" by simp
  from a1 b1 e1 e2 a3 a5 r1 r2 r3 show ?thesis by simp
qed

subsection \<open>Removing a route\<close>

lemma indexOf_member:
  "x \<in> set xs \<Longrightarrow> \<exists>i<length xs. indexOf x xs = int i \<and> take i xs @ drop (Suc i) xs = remove1 x xs"
proof (induction xs)
  case Nil
  then show ?case by simp
next
  case (Cons y ys)
  show ?case
  proof (cases "y = x")
    case True
    then show ?thesis by (intro exI[of _ 0]) simp
  next
    case False
    with Cons obtain i where "i < length ys" "indexOf x ys = int i"
      "take i ys @ drop (Suc i) ys = remove1 x ys" by auto
    with False show ?thesis by (intro exI[of _ "Suc i"]) (simp add: Let_def)
  qed
qed

lemma spliceStart_nat: "i \<le> length xs \<Longrightarrow> spliceStart (int i) xs = i"
  by (simp add: spliceStart_def)

lemma splice_js_remove_at:
  "i < length xs \<Longrightarrow> splice_js (int i) (Some (Suc 0)) [] xs = ([xs ! i], take i xs @ drop (Suc i) xs)"
proof -
  assume i: "i < length xs"
  then have k: "spliceStart (int i) xs = i" by (simp add: spliceStart_nat)
  from i have n: "min (Suc 0) (length xs - i) = Suc 0" by simp
  from i have d: "drop i xs = xs ! i # drop (Suc i) xs"
    by (simp add: Cons_nth_drop_Suc)
  have t: "take (Suc 0) (drop i xs) = [xs ! i]"
    by (subst d) simp
  have "splice_js (int i) (Some (Suc 0)) [] xs = (take (Suc 0) (drop i xs), take i xs @ [] @ drop (i + Suc 0) xs)"
    unfolding splice_js_def Let_def k option.case n ..
  with t show ?thesis by simp
qed

lemma splice_remove_member:
  assumes "x \<in> set xs"
  shows "snd (splice_js (indexOf x xs) (Some (Suc 0)) [] xs) = remove1 x xs"
proof -
  from indexOf_member[OF assms] obtain i where i: "i < length xs" "indexOf x xs = int i"
    "take i xs @ drop (Suc i) xs = remove1 x xs"
    by (elim exE conjE)
  from i(2) have "snd (splice_js (indexOf x xs) (Some (Suc 0)) [] xs)
      = snd (splice_js (int i) (Some (Suc 0)) [] xs)" by (simp only:)
  also from i(1) have "\<dots> = take i xs @ drop (Suc i) xs"
    by (simp only: splice_js_remove_at snd_conv)
  also note i(3)
  finally show ?thesis .
qed

lemma getRouteByName_Some:
  "getRouteByName n s = Some r \<Longrightarrow> r \<in> set (routes s) \<and> name (heap s r) = n"
  by (auto simp: getRouteByName_def find_Some_iff)

lemma removeLayer_fields [simp]:
  "routes (removeLayer r s) = routes s"
  "selectedRoute (removeLayer r s) = selectedRoute s"
  "nextRef (removeLayer r s) = nextRef s"
  "mapLayers (removeLayer r s) = mapLayers s - {r}"
  "heap (removeLayer r s) = (heap s)(r := (heap s r)\<lparr>isVisible := False\<rparr>)"
  by (simp_all add: removeLayer_def)

lemma removeRoute_absent: "getRouteByName n s = None \<Longrightarrow> removeRoute n s = s"
  by (simp add: removeRoute_def)

lemma removeRoute_unfold:
  assumes "getRouteByName n s = Some r"
  shows "removeRoute n s =
     (removeLayer r (if selectedRoute s = Some r then selectRoute None s else s))
       \<lparr>routes := remove1 r (routes s)\<rparr>"
proof -
  from getRouteByName_Some[OF assms] have "r \<in> set (routes s)" by simp
  then have "snd (splice_js (indexOf r (routes s)) (Some (Suc 0)) [] (routes s)) = remove1 r (routes s)"
    by (rule splice_remove_member)
  with assms show ?thesis by (simp add: removeRoute_def Let_def)
qed

lemma removeRoute_fields:
  assumes "getRouteByName n s = Some r"
  shows "routes (removeRoute n s) = remove1 r (routes s)"
    and "selectedRoute (removeRoute n s) = (if selectedRoute s = Some r then None else selectedRoute s)"
    and "mapLayers (removeRoute n s) = mapLayers s - {r}"
    and "nextRef (removeRoute n s) = nextRef s"
    and "name (heap (removeRoute n s) x) = name (heap s x)"
    and "markers (heap (removeRoute n s) x) = markers (heap s x)"
    and "segments (heap (removeRoute n s) x) = segments (heap s x)"
    and "state (heap (removeRoute n s) x) = (if selectedRoute s = Some r \<and> x = r then ReadOnly else state (heap s x))"
  by (simp_all add: removeRoute_unfold[OF assms])

lemma routeNames_remove1:
  assumes "distinct (routeNames s)" and "r \<in> set (routes s)"
  shows "name (heap s r) \<notin> set (map (\<lambda>x. name (heap s x)) (remove1 r (routes s)))"
proof -
  from assms(1) have d: "distinct (routes s)" and inj: "inj_on (\<lambda>x. name (heap s x)) (set (routes s))"
    by (simp_all add: routeNames_def distinct_map)
  show ?thesis
  proof
    assume "name (heap s r) \<in> set (map (\<lambda>x. name (heap s x)) (remove1 r (routes s)))"
    then obtain x where x: "x \<in> set (remove1 r (routes s))" "name (heap s x) = name (heap s r)"
      by auto
    with d have "x \<in> set (routes s)" "x \<noteq> r" by auto
    with inj assms(2) x(2) show False by (auto dest: inj_onD)
  qed
qed

text \<open>
  C8, as the code has it.  \<^verbatim>\<open>removeRoute\<close> changes nothing when no route bears the
  name.  Otherwise it removes the first route \<open>r\<close> that bears it from the collection
  and from the map; when \<open>r\<close> is the selection the selection becomes \<^verbatim>\<open>null\<close>, and no
  other route is selected in its place; when it is not, the selection stays.  When the
  names of the collection are pairwise distinct, no route of that name remains.
\<close>
theorem removeRoute_result:
  "(getRouteByName n s = None \<longrightarrow> removeRoute n s = s)
   \<and> (\<forall>r. getRouteByName n s = Some r \<longrightarrow>
        routes (removeRoute n s) = remove1 r (routes s)
        \<and> r \<notin> mapLayers (removeRoute n s)
        \<and> (selectedRoute s = Some r \<longrightarrow> selectedRoute (removeRoute n s) = None)
        \<and> (selectedRoute s \<noteq> Some r \<longrightarrow> selectedRoute (removeRoute n s) = selectedRoute s)
        \<and> (distinct (routeNames s) \<longrightarrow> n \<notin> set (routeNames (removeRoute n s))))"
proof (intro conjI allI impI)
  assume "getRouteByName n s = None"
  then show "removeRoute n s = s" by (rule removeRoute_absent)
next
  fix r assume r: "getRouteByName n s = Some r"
  show "routes (removeRoute n s) = remove1 r (routes s)" by (simp add: removeRoute_fields[OF r])
  show "r \<notin> mapLayers (removeRoute n s)" by (simp add: removeRoute_fields[OF r])
  { assume "selectedRoute s = Some r"
    then show "selectedRoute (removeRoute n s) = None" by (simp add: removeRoute_fields[OF r]) }
  { assume "selectedRoute s \<noteq> Some r"
    then show "selectedRoute (removeRoute n s) = selectedRoute s" by (simp add: removeRoute_fields[OF r]) }
  { assume d: "distinct (routeNames s)"
    from getRouteByName_Some[OF r] have m: "r \<in> set (routes s)" and n: "name (heap s r) = n"
      by auto
    from routeNames_remove1[OF d m] n show "n \<notin> set (routeNames (removeRoute n s))"
      by (simp add: routeNames_def removeRoute_fields[OF r]) }
qed

theorem removeRoute_result_witness:
  "getRouteByName (Str (js ''A'')) routesAB = Some 0 \<and> selectedRoute routesAB = Some 0
   \<and> distinct (routeNames routesAB)
   \<and> routes (removeRoute (Str (js ''A'')) routesAB) = [1]
   \<and> selectedRoute (removeRoute (Str (js ''A'')) routesAB) = None
   \<and> Str (js ''A'') \<notin> set (routeNames (removeRoute (Str (js ''A'')) routesAB))"
proof -
  have g: "getRouteByName (Str (js ''A'')) routesAB = Some 0" by code_simp
  have sel: "selectedRoute routesAB = Some 0" by code_simp
  have d: "distinct (routeNames routesAB)" by code_simp
  have rs: "remove1 0 (routes routesAB) = [1]" by code_simp
  from removeRoute_result[of "Str (js ''A'')" routesAB] g sel d rs show ?thesis by simp
qed

text \<open>
  Where the claim as written fails: of two routes with one name the second remains.
\<close>

theorem removeRoute_leaves_namesake:
  "getRouteByName (Str (js ''Route'')) twins = Some 0
   \<and> Str (js ''Route'') \<in> set (routeNames (removeRoute (Str (js ''Route'')) twins))"
  by code_simp

subsection \<open>Import of markers\<close>

lemma fixMarkerType_listed:
  assumes "ty \<in> set (availableIconTypes sv)" and "ty \<noteq> []" and "iconType mk = Str ty"
  shows "fixMarkerType sv mk = mk"
proof -
  from assms(1,3) obtain m where
    m: "find (\<lambda>m. Str m = iconType mk) (availableIconTypes sv) = Some m"
    by (cases "find (\<lambda>m. Str m = iconType mk) (availableIconTypes sv)")
       (auto simp: find_None_iff)
  then have "Str m = iconType mk" by (auto simp: find_Some_iff)
  with assms(2,3) have "m \<noteq> []" by simp
  with m show ?thesis by (simp add: fixMarkerType_def)
qed

lemma fixMarkerType_unlisted:
  assumes "\<forall>ty\<in>set (availableIconTypes sv). iconType mk \<noteq> Str ty"
  shows "fixMarkerType sv mk
       = mk\<lparr>iconType := (case availableIconTypes sv of [] \<Rightarrow> Undefined | ty # _ \<Rightarrow> Str ty)\<rparr>"
proof -
  from assms have "find (\<lambda>m. Str m = iconType mk) (availableIconTypes sv) = None"
    by (auto simp: find_None_iff)
  then show ?thesis by (simp add: fixMarkerType_def)
qed

text \<open>
  C9.  When \<^verbatim>\<open>setData\<close> is given exactly one route, without segments, and the collection
  is not empty, it returns, and the markers of that route are appended, in their
  order, to the markers of the selected route, or of the first route of the collection
  when none is selected.  A marker whose icon type is a non-empty type of the table
  of icon types arrives as it is; a marker whose icon type is not in the table arrives
  with the first type of the table.  The target is hidden in between and gets back the
  edit mode it had when the import began, whatever hiding made of it; it ends in the
  state in which \<^verbatim>\<open>setEditMode\<close> leaves a hidden layer.  The target is the selection
  afterwards; no route and no object is created, and no other layer changes.
\<close>

theorem setData_markers_only:
  assumes "routes s \<noteq> []" and "segments rd = []"
  shows "\<exists>s'. setData sv (Some [rd]) s = (Inr (), s')
     \<and> routes s' = routes s \<and> nextRef s' = nextRef s
     \<and> selectedRoute s' = Some (importTarget s)
     \<and> markers (heap s' (importTarget s))
         = markers (heap s (importTarget s)) @ map (fixMarkerType sv) (markers rd)
     \<and> (\<forall>mk ty. ty \<in> set (availableIconTypes sv) \<and> ty \<noteq> [] \<and> iconType mk = Str ty
           \<longrightarrow> fixMarkerType sv mk = mk)
     \<and> (\<forall>mk. (\<forall>ty\<in>set (availableIconTypes sv). iconType mk \<noteq> Str ty)
           \<longrightarrow> fixMarkerType sv mk
               = mk\<lparr>iconType := (case availableIconTypes sv of [] \<Rightarrow> Undefined
                                   | ty # _ \<Rightarrow> Str ty)\<rparr>)
     \<and> editMode (heap s' (importTarget s)) = editMode (heap s (importTarget s))
     \<and> state (heap s' (importTarget s))
         = stateOfEditMode sv (editMode (heap s (importTarget s))) Hidden
     \<and> (\<forall>r. r \<noteq> importTarget s \<longrightarrow> heap s' r = heap s r)"
proof -
  let ?t = "importTarget s"
  let ?s0 = "if selectedRoute s = None then s\<lparr>selectedRoute := Some (routes s ! 0)\<rparr> else s"
  let ?s1 = "setHiddenState sv ?t ?s0"
  let ?s2 = "setMarkers ?t (markers (heap s ?t) @ map (fixMarkerType sv) (markers rd)) ?s1"
  let ?s3 = "setEditMode sv ?t (editMode (heap s ?t)) ?s2"
  have sel0: "selectedRoute ?s0 = Some ?t"
    by (cases "selectedRoute s") (simp_all add: importTarget_def)
  have heap0: "heap ?s0 = heap s" by simp
  have run: "setData sv (Some [rd]) s = (Inr (), ?s3)"
    using assms sel0 heap0
    by (simp add: setData_def addLayersToMap_def routesJsonToRoutesObject_def getEditMode_def)
  have "routes ?s3 = routes s" by simp
  moreover have "nextRef ?s3 = nextRef s" by simp
  moreover have "selectedRoute ?s3 = Some ?t" using sel0 by simp
  moreover have "markers (heap ?s3 ?t)
      = markers (heap s ?t) @ map (fixMarkerType sv) (markers rd)" by simp
  moreover have "editMode (heap ?s3 ?t) = editMode (heap s ?t)" by simp
  moreover have "state (heap ?s3 ?t) = stateOfEditMode sv (editMode (heap s ?t)) Hidden" by simp
  moreover have "\<forall>r. r \<noteq> ?t \<longrightarrow> heap ?s3 r = heap s r"
    by (simp add: setHiddenState_def setMarkers_def setEditMode_def)
  moreover have "\<forall>mk ty. ty \<in> set (availableIconTypes sv) \<and> ty \<noteq> [] \<and> iconType mk = Str ty
           \<longrightarrow> fixMarkerType sv mk = mk"
    using fixMarkerType_listed by blast
  moreover have "\<forall>mk. (\<forall>ty\<in>set (availableIconTypes sv). iconType mk \<noteq> Str ty)
           \<longrightarrow> fixMarkerType sv mk
               = mk\<lparr>iconType := (case availableIconTypes sv of [] \<Rightarrow> Undefined
                                   | ty # _ \<Rightarrow> Str ty)\<rparr>"
    using fixMarkerType_unlisted by blast
  ultimately show ?thesis using run by blast
qed

theorem setData_markers_only_witness:
  "routes routesAB \<noteq> [] \<and> segments markerPayload = []
   \<and> fst (setData lineServices (Some [markerPayload]) routesAB) = Inr ()
   \<and> routes (snd (setData lineServices (Some [markerPayload]) routesAB)) = [0, 1]
   \<and> markers (heap (snd (setData lineServices (Some [markerPayload]) routesAB)) 0)
       = [star 1, star 7, (flag 8)\<lparr>iconType := Str (js ''star'')\<rparr>]
   \<and> editMode (heap routesAB 0) = ''Route''
   \<and> editMode (heap (setHiddenState lineServices 0 routesAB) 0) = ''None''
   \<and> editMode (heap (snd (setData lineServices (Some [markerPayload]) routesAB)) 0) = ''Route''
   \<and> state (heap (snd (setData lineServices (Some [markerPayload]) routesAB)) 0) = Edit"
proof -
  have h1: "routes routesAB \<noteq> []" by code_simp
  have h2: "segments markerPayload = []" by code_simp
  have t: "importTarget routesAB = 0" by code_simp
  have r: "routes routesAB = [0, 1]" by code_simp
  have m: "markers (heap routesAB 0) = [star 1]" by code_simp
  have p: "markers markerPayload = [star 7, flag 8]" by code_simp
  have ty: "js ''star'' \<in> set (availableIconTypes lineServices) \<and> js ''star'' \<noteq> []
            \<and> iconType (star 7) = Str (js ''star'')" by code_simp
  have un: "\<forall>ty\<in>set (availableIconTypes lineServices). iconType (flag 8) \<noteq> Str ty" by code_simp
  have fst: "(case availableIconTypes lineServices of [] \<Rightarrow> Undefined | ty # _ \<Rightarrow> Str ty)
             = Str (js ''star'')" by code_simp
  have e: "editMode (heap routesAB 0) = ''Route''" by code_simp
  have hid: "editMode (heap (setHiddenState lineServices 0 routesAB) 0) = ''None''" by code_simp
  have st: "stateOfEditMode lineServices ''Route'' Hidden = Edit" by code_simp
  from setData_markers_only[OF h1 h2, of lineServices]
  obtain s' where s': "setData lineServices (Some [markerPayload]) routesAB = (Inr (), s')"
     "routes s' = routes routesAB"
     "markers (heap s' (importTarget routesAB))
         = markers (heap routesAB (importTarget routesAB))
           @ map (fixMarkerType lineServices) (markers markerPayload)"
     "\<forall>mk ty. ty \<in> set (availableIconTypes lineServices) \<and> ty \<noteq> [] \<and> iconType mk = Str ty
           \<longrightarrow> fixMarkerType lineServices mk = mk"
     "\<forall>mk. (\<forall>ty\<in>set (availableIconTypes lineServices). iconType mk \<noteq> Str ty)
           \<longrightarrow> fixMarkerType lineServices mk
               = mk\<lparr>iconType := (case availableIconTypes lineServices of [] \<Rightarrow> Undefined
                                   | ty # _ \<Rightarrow> Str ty)\<rparr>"
     "editMode (heap s' (importTarget routesAB)) = editMode (heap routesAB (importTarget routesAB))"
     "state (heap s' (importTarget routesAB))
         = stateOfEditMode lineServices (editMode (heap routesAB (importTarget routesAB))) Hidden"
    by blast
  from s'(4) ty have f1: "fixMarkerType lineServices (star 7) = star 7" by blast
  from s'(5) un fst have f2: "fixMarkerType lineServices (flag 8)
      = (flag 8)\<lparr>iconType := Str (js ''star'')\<rparr>" by simp
  from s'(1,2,3,6,7) f1 f2 t r m p e hid st h1 h2 show ?thesis by simp
qed

subsection \<open>Distinct names\<close>

lemma addLayerFromData_fields:
  "routes (addLayerFromData sv rd s) = routes s @ [nextRef s]"
  "nextRef (addLayerFromData sv rd s) = nextRef s + 1"
  "selectedRoute (addLayerFromData sv rd s) = Some (nextRef s)"
  "name (heap (addLayerFromData sv rd s) r) = (if r = nextRef s then name rd else name (heap s r))"
  "segments (heap (addLayerFromData sv rd s) r) = (if r = nextRef s then segments rd else segments (heap s r))"
  "markers (heap (addLayerFromData sv rd s) r) = (if r = nextRef s then markers rd else markers (heap s r))"
  "state (heap (addLayerFromData sv rd s) r) =
     (if selectedRoute s = Some r then ReadOnly
      else if r = nextRef s then factoryState sv else state (heap s r))"
  by (simp_all add: addLayerFromData_def createRouteLayerFromData_def createRouteLayer_def
      addLayer_def Let_def split: option.splits)

lemma namesDistinct_push:
  assumes "namesDistinct s" and "nm \<notin> set (routeNames s)"
    and "routes s' = routes s @ [nextRef s]" and "nextRef s' = nextRef s + 1"
    and "\<And>r. name (heap s' r) = (if r = nextRef s then nm else name (heap s r))"
  shows "namesDistinct s'"
proof -
  from assms(1) have lt: "\<forall>r\<in>set (routes s). r < nextRef s" and d: "distinct (routeNames s)"
    by (simp_all add: namesDistinct_def list_all_iff)
  from lt have "map (\<lambda>r. name (heap s' r)) (routes s) = routeNames s"
    by (auto simp: routeNames_def assms(5))
  then have "routeNames s' = routeNames s @ [nm]"
    by (simp add: routeNames_def assms(3,5))
  with d assms(2) lt show ?thesis
    by (auto simp: namesDistinct_def list_all_iff assms(3,4))
qed

lemma namesDistinct_same:
  assumes "namesDistinct s" and "routes s' = routes s" and "nextRef s' = nextRef s"
    and "\<And>r. name (heap s' r) = name (heap s r)"
  shows "namesDistinct s'"
  using assms by (simp add: namesDistinct_def routeNames_def)

lemma isNameAvailable_free: "isNameAvailable nm s \<Longrightarrow> nm \<notin> set (routeNames s)"
  by (simp add: isNameAvailable_def getRouteByName_None)

lemma createRouteName_free:
  "createRouteName sv nm s = Inr n \<Longrightarrow> Str n \<notin> set (routeNames s)"
proof -
  assume a: "createRouteName sv nm s = Inr n"
  then obtain b where "n = createRouteName_loop (routeNames s) b 1"
    by (auto simp: createRouteName_def split: jsString.splits)
  with createRouteName_loop_result[of 1 "routeNames s" b] show ?thesis
    by (auto simp: nameInUse_routeNames)
qed

lemma namesDistinct_addRoute:
  "namesDistinct s \<Longrightarrow> isNameAvailable (name rt) s \<Longrightarrow> namesDistinct (addRoute sv rt s)"
  by (rule namesDistinct_push[where nm = "name rt"])
     (simp_all add: isNameAvailable_free addRoute_fields)

lemma namesDistinct_addLayerFromData:
  "namesDistinct s \<Longrightarrow> name rd \<notin> set (routeNames s) \<Longrightarrow> namesDistinct (addLayerFromData sv rd s)"
  by (rule namesDistinct_push[where nm = "name rd"])
     (simp_all add: addLayerFromData_fields)

lemma namesDistinct_addRouteLayers:
  "namesDistinct s \<Longrightarrow> namesDistinct (snd (addRouteLayers sv rs s))"
proof (induction rs arbitrary: s)
  case Nil
  then show ?case by simp
next
  case (Cons rd rs)
  show ?case
  proof (cases "isNameAvailable (name rd) s")
    case True
    then have free: "name rd \<notin> set (routeNames s)" by (rule isNameAvailable_free)
    have "namesDistinct (addLayerFromData sv (rd\<lparr>name := name rd\<rparr>) s)"
      using Cons.prems free by (intro namesDistinct_addLayerFromData) simp_all
    then have "namesDistinct (snd (addRouteLayers sv rs (addLayerFromData sv (rd\<lparr>name := name rd\<rparr>) s)))"
      by (rule Cons.IH)
    with True show ?thesis by simp
  next
    case False
    show ?thesis
    proof (cases "createRouteName sv (name rd) s")
      case (Inl e)
      with False Cons.prems show ?thesis by simp
    next
      case (Inr n)
      then have free: "Str n \<notin> set (routeNames s)" by (rule createRouteName_free)
      have "namesDistinct (addLayerFromData sv (rd\<lparr>name := Str n\<rparr>) s)"
        using Cons.prems free by (intro namesDistinct_addLayerFromData) simp_all
      then have "namesDistinct (snd (addRouteLayers sv rs (addLayerFromData sv (rd\<lparr>name := Str n\<rparr>) s)))"
        by (rule Cons.IH)
      with False Inr show ?thesis by simp
    qed
  qed
qed

lemma namesDistinct_addLayersToMap:
  assumes "namesDistinct s"
  shows "namesDistinct (snd (addLayersToMap sv rs s))"
proof (cases "length rs = 1 \<and> length (segments (rs ! 0)) = 0 \<and> length (routes s) > 0")
  case False
  then have "addLayersToMap sv rs s = addRouteLayers sv rs s"
    by (auto simp: addLayersToMap_def)
  with assms show ?thesis by (simp add: namesDistinct_addRouteLayers)
next
  case True
  then show ?thesis
    using assms
    by (cases "selectedRoute s")
       (auto simp: addLayersToMap_def getEditMode_def setHiddenState_def setMarkers_def
          setEditMode_def intro!: namesDistinct_same[OF assms])
qed

lemma namesDistinct_setData: "namesDistinct s \<Longrightarrow> namesDistinct (snd (setData sv payload s))"
  by (cases payload) (simp_all add: setData_def namesDistinct_addLayersToMap)

lemma routeNames_push:
  assumes "list_all (\<lambda>r. r < nextRef s) (routes s)"
    and "routes s' = routes s @ [nextRef s]"
    and "\<And>r. name (heap s' r) = (if r = nextRef s then nm else name (heap s r))"
  shows "routeNames s' = routeNames s @ [nm]"
proof -
  from assms(1) have "map (\<lambda>r. name (heap s' r)) (routes s) = routeNames s"
    by (auto simp: routeNames_def assms(3) list_all_iff)
  then show ?thesis by (simp add: routeNames_def assms(2,3))
qed

lemma createRouteName_available:
  "createRouteName sv nm s = Inr n \<Longrightarrow> isNameAvailable (Str n) s"
proof -
  assume a: "createRouteName sv nm s = Inr n"
  then obtain b where "n = createRouteName_loop (routeNames s) b 1"
    by (auto simp: createRouteName_def split: jsString.splits)
  with createRouteName_loop_result[of 1 "routeNames s" b] show ?thesis
    by (auto simp: nameInUse_routeNames isNameAvailable_candidate)
qed

lemma setData_one_segmented:
  assumes "segments rd \<noteq> [] \<or> routes s = []"
  shows "setData sv (Some [rd]) s =
     (case (if isNameAvailable (name rd) s then Inr (name rd)
            else map_sum id Str (createRouteName sv (name rd) s)) of
        Inl e \<Rightarrow> (Inl e, s)
      | Inr nm \<Rightarrow> (Inr (), addLayerFromData sv
            (rd\<lparr>markers := map (fixMarkerType sv) (markers rd), name := nm\<rparr>) s))"
proof -
  let ?rd = "rd\<lparr>markers := map (fixMarkerType sv) (markers rd)\<rparr>"
  from assms have "addLayersToMap sv [?rd] s = addRouteLayers sv [?rd] s"
    by (auto simp: addLayersToMap_def)
  then show ?thesis
    by (simp add: setData_def routesJsonToRoutesObject_def bindJ_def thenJ_def
        split: sum.splits)
qed

text \<open>
  C1, as the code has it.  From an empty manager, after every sequence of calls of
  \<^verbatim>\<open>addRoute\<close> whose route name is available when the call is made, and of imports by
  \<^verbatim>\<open>setData\<close>, the names of the routes of the collection are pairwise distinct.  In
  such a state \<^verbatim>\<open>addRoute\<close> puts the route into the collection under the name it is
  given.  It is the import that renames: a route that is imported alone, with segments
  or into an empty collection, enters the collection under its own name when that name
  is available, and otherwise under the name that \<^verbatim>\<open>createRouteName\<close> returns for its
  name, which is available.
\<close>

theorem insertions_keep_names_distinct:
  assumes "insertionsLeadTo sv s"
  shows "distinct (routeNames s)
     \<and> routeNames (addRoute sv rt s) = routeNames s @ [name rt]
     \<and> ((segments rd \<noteq> [] \<or> routes s = []) \<and> isNameAvailable (name rd) s \<longrightarrow>
          fst (setData sv (Some [rd]) s) = Inr ()
          \<and> routeNames (snd (setData sv (Some [rd]) s)) = routeNames s @ [name rd])
     \<and> (\<forall>n. (segments rd \<noteq> [] \<or> routes s = []) \<and> \<not> isNameAvailable (name rd) s
              \<and> createRouteName sv (name rd) s = Inr n \<longrightarrow>
          isNameAvailable (Str n) s
          \<and> fst (setData sv (Some [rd]) s) = Inr ()
          \<and> routeNames (snd (setData sv (Some [rd]) s)) = routeNames s @ [Str n])"
proof -
  from assms have inv: "namesDistinct s"
  proof (induction rule: insertionsLeadTo.induct)
    case (fromEmpty blank)
    then show ?case by (simp add: namesDistinct_def routeNames_def newRoutesService_def)
  next
    case (byAddRoute s rt)
    then show ?case by (simp add: namesDistinct_addRoute)
  next
    case (bySetData s payload)
    then show ?case by (simp add: namesDistinct_setData)
  qed
  then have d: "distinct (routeNames s)" and lt: "list_all (\<lambda>r. r < nextRef s) (routes s)"
    by (simp_all add: namesDistinct_def)
  have add: "routeNames (addRoute sv rt s) = routeNames s @ [name rt]"
    using lt by (rule routeNames_push) (simp_all add: addRoute_fields)
  have imp: "routeNames (addLayerFromData sv
        (rd\<lparr>markers := map (fixMarkerType sv) (markers rd), name := nm\<rparr>) s) = routeNames s @ [nm]"
    for nm
    using lt by (rule routeNames_push) (simp_all add: addLayerFromData_fields)
  have own: "(segments rd \<noteq> [] \<or> routes s = []) \<and> isNameAvailable (name rd) s \<longrightarrow>
          fst (setData sv (Some [rd]) s) = Inr ()
          \<and> routeNames (snd (setData sv (Some [rd]) s)) = routeNames s @ [name rd]"
    using imp[of "name rd"] by (simp add: setData_one_segmented)
  have renamed: "\<forall>n. (segments rd \<noteq> [] \<or> routes s = []) \<and> \<not> isNameAvailable (name rd) s
              \<and> createRouteName sv (name rd) s = Inr n \<longrightarrow>
          isNameAvailable (Str n) s
          \<and> fst (setData sv (Some [rd]) s) = Inr ()
          \<and> routeNames (snd (setData sv (Some [rd]) s)) = routeNames s @ [Str n]"
  proof (intro allI impI)
    fix n
    assume a: "(segments rd \<noteq> [] \<or> routes s = []) \<and> \<not> isNameAvailable (name rd) s
                \<and> createRouteName sv (name rd) s = Inr n"
    then have "isNameAvailable (Str n) s" using createRouteName_available by blast
    moreover from a have "setData sv (Some [rd]) s
        = (Inr (), addLayerFromData sv
             (rd\<lparr>markers := map (fixMarkerType sv) (markers rd), name := Str n\<rparr>) s)"
      by (simp add: setData_one_segmented)
    ultimately show "isNameAvailable (Str n) s
          \<and> fst (setData sv (Some [rd]) s) = Inr ()
          \<and> routeNames (snd (setData sv (Some [rd]) s)) = routeNames s @ [Str n]"
      using imp[of "Str n"] by simp
  qed
  from d add own renamed show ?thesis by blast
qed

theorem insertions_keep_names_distinct_witness:
  "insertionsLeadTo lineServices twoRoutes
   \<and> routeNames twoRoutes = [Str (js ''Route 1''), Str (js ''Route 2'')]
   \<and> createRouteName lineServices (Str (js ''Route 1'')) twoRoutes = Inr (js ''Route 3'')
   \<and> routeNames afterImport = [Str (js ''Route 1''), Str (js ''Route 2''), Str (js ''Route 3'')]
   \<and> routeNames (addRoute lineServices routeA twoRoutes)
       = [Str (js ''Route 1''), Str (js ''Route 2''), Str (js ''A'')]"
proof -
  let ?rd = "\<lparr>name = Str (js ''Route 1''), segments = [hike 100 [0, 1]], markers = []\<rparr>"
  have a1: "isNameAvailable (name (namedRoute ''Route 1'' [] [])) emptyManager" by code_simp
  have a2: "isNameAvailable (name (namedRoute ''Route 2'' [] []))
              (addRoute lineServices (namedRoute ''Route 1'' [] []) emptyManager)" by code_simp
  have "insertionsLeadTo lineServices emptyManager"
    unfolding emptyManager_def by (rule insertionsLeadTo.fromEmpty)
  from insertionsLeadTo.byAddRoute[OF this a1]
  have r: "insertionsLeadTo lineServices twoRoutes"
    unfolding twoRoutes_def using a2 by (rule insertionsLeadTo.byAddRoute)
  have n: "routeNames twoRoutes = [Str (js ''Route 1''), Str (js ''Route 2'')]"
    by (rule routeNames_twoRoutes)
  have c: "createRouteName lineServices (Str (js ''Route 1'')) twoRoutes = Inr (js ''Route 3'')"
    by code_simp
  have h: "(segments ?rd \<noteq> [] \<or> routes twoRoutes = []) \<and> \<not> isNameAvailable (name ?rd) twoRoutes
           \<and> createRouteName lineServices (name ?rd) twoRoutes = Inr (js ''Route 3'')"
    by code_simp
  have na: "name routeA = Str (js ''A'')" by code_simp
  from insertions_keep_names_distinct[OF r, of routeA ?rd]
  have add: "routeNames (addRoute lineServices routeA twoRoutes) = routeNames twoRoutes @ [name routeA]"
    and ren: "\<forall>n. (segments ?rd \<noteq> [] \<or> routes twoRoutes = []) \<and> \<not> isNameAvailable (name ?rd) twoRoutes
              \<and> createRouteName lineServices (name ?rd) twoRoutes = Inr n \<longrightarrow>
          isNameAvailable (Str n) twoRoutes
          \<and> fst (setData lineServices (Some [?rd]) twoRoutes) = Inr ()
          \<and> routeNames (snd (setData lineServices (Some [?rd]) twoRoutes))
              = routeNames twoRoutes @ [Str n]"
    by blast+
  from ren h have "routeNames afterImport = routeNames twoRoutes @ [Str (js ''Route 3'')]"
    unfolding afterImport_def by blast
  with add r n c na show ?thesis by simp
qed

text \<open>
  Where the claim as written fails: \<^verbatim>\<open>addRoute\<close> called twice with the same name leaves
  two routes of that name, neither renamed.
\<close>

theorem addRoute_keeps_colliding_name:
  "routeNames twins = [Str (js ''Route''), Str (js ''Route'')] \<and> \<not> distinct (routeNames twins)"
  by code_simp

subsection \<open>Splitting the selected route\<close>



lemma splice_js_front: "splice_js 0 (Some 0) items xs = ([], items @ xs)"
  by (simp add: splice_js_def spliceStart_def Let_def)

lemma splice_js_first: "splice_js 0 (Some (Suc 0)) [] xs = (take (Suc 0) xs, drop (Suc 0) xs)"
  by (simp add: splice_js_def spliceStart_def Let_def min_def)




lemma newObject_apply [simp]: "newObject s = (Inr (nextRef s), s\<lparr>nextRef := nextRef s + 1\<rparr>)"
  by (simp add: newObject_def)





subsection \<open>Merging at the end\<close>

text \<open>
  C2, as the code has it.  The collection is \<open>[a, b]\<close> with different names, \<open>a\<close> is
  selected and has the one segment \<open>s1\<close>; \<open>b\<close> has a leading segment \<open>b0\<close> followed
  by \<open>s2\<close>; the first point of \<open>b\<close> is less than 50 meters from the last point of
  \<open>a\<close>, and the last point of \<open>b\<close> is not.  Then the merge at the end returns, the
  collection is \<open>[a]\<close>, and the segments of \<open>a\<close> are \<open>s1\<close>, as it was, followed by
  \<open>s2\<close> with the last point of \<open>a\<close> put before its points: the leading segment of
  \<open>b\<close> is dropped and \<open>b\<close> is not reversed (the result does not depend on
  \<open>reverseSegments\<close>).  The markers of \<open>b\<close> follow those of \<open>a\<close>, and \<open>a\<close> is in
  Edit state.
\<close>

theorem mergeSelectedRouteToClosest_at_end:
  assumes rs: "routes s = [a, b]" and ab: "a \<noteq> b" and sel: "selectedRoute s = Some a"
    and sa: "segments (heap s a) = [s1]" and sb: "segments (heap s b) = [b0, s2]"
    and names: "name (heap s a) \<noteq> name (heap s b)"
    and p1: "latlngs s1 \<noteq> []" and p0: "latlngs b0 = q0 # qs" and p2: "latlngs s2 \<noteq> []"
    and near: "distanceTo sv q0 (last (latlngs s1)) < MERGE_THRESHOLD"
    and far: "\<not> distanceTo sv (last (latlngs s2)) (last (latlngs s1)) < MERGE_THRESHOLD"
  shows "\<exists>s'. mergeSelectedRouteToClosest sv False s = (Inr (), s')
     \<and> routes s' = [a] \<and> selectedRoute s' = Some a
     \<and> segments (heap s' a) = [s1, s2\<lparr>latlngs := last (latlngs s1) # latlngs s2\<rparr>]
     \<and> markers (heap s' a) = markers (heap s a) @ markers (heap s b)
     \<and> state (heap s' a) = Edit"
proof -
  let ?pa = "last (latlngs s1)"
  have la: "getLastLatLng [s1] = Inr ?pa" using p1 by (simp add: getLastLatLng_def)
  have lb: "getLastLatLng [b0, s2] = Inr (last (latlngs s2))" using p2 by (simp add: getLastLatLng_def)
  have fb: "firstLatLng [b0, s2] = Inr (Some q0)" using p0 by (simp add: firstLatLng_def)
  have closest: "getClosestRoute sv False s = Inr (Some b)"
    using rs ab sel sa sb la lb fb near far
    by (simp add: getClosestRoute_def latLngToCheck_def closerThanThreshold_def)
  let ?s1 = "setHiddenState sv a s"
  have g: "getRouteByName (name (heap s b)) ?s1 = Some b"
    using rs names by (simp add: getRouteByName_def)
  note rf = removeRoute_fields[OF g]
  let ?s2 = "removeRoute (name (heap s b)) ?s1"
  let ?s3 = "setMarkers a (markers (heap s a) @ markers (heap s b)) ?s2"
  let ?s4 = "setSegments b [s2] ?s3"
  let ?s5 = "setSegments b [s2\<lparr>latlngs := ?pa # latlngs s2\<rparr>] ?s4"
  let ?s6 = "setSegments a [s1, s2\<lparr>latlngs := ?pa # latlngs s2\<rparr>] ?s5"
  let ?s7 = "raiseDataChanged a (setEditRouteState a ?s6)"
  have run: "mergeSelectedRouteToClosest sv False s = (Inr (), ?s7)"
    unfolding mergeSelectedRouteToClosest_def mergeLast_def
    using closest sel ab sa sb la lb far
    by (simp add: rf nonNull_def latLngToCheck_def closerThanThreshold_def
        splice_js_first splice_js_front)
  have "routes ?s7 = [a]" using rs ab by (simp add: rf)
  moreover have "selectedRoute ?s7 = Some a" using sel ab by (simp add: rf)
  moreover have "segments (heap ?s7 a) = [s1, s2\<lparr>latlngs := ?pa # latlngs s2\<rparr>]" by simp
  moreover have "markers (heap ?s7 a) = markers (heap s a) @ markers (heap s b)" by simp
  moreover have "state (heap ?s7 a) = Edit" by simp
  ultimately show ?thesis using run by blast
qed

theorem mergeSelectedRouteToClosest_at_end_witness:
  "routes routesAB = [0, 1] \<and> selectedRoute routesAB = Some 0
   \<and> segments (heap routesAB 0) = [hike 100 [0, 100]]
   \<and> segments (heap routesAB 1) = [hike 101 [120, 120], hike 102 [120, 300]]
   \<and> fst (mergeSelectedRouteToClosest lineServices False routesAB) = Inr ()
   \<and> routes (snd (mergeSelectedRouteToClosest lineServices False routesAB)) = [0]
   \<and> segments (heap (snd (mergeSelectedRouteToClosest lineServices False routesAB)) 0)
       = [hike 100 [0, 100], (hike 102 [120, 300])\<lparr>latlngs := [100, 120, 300]\<rparr>]"
proof -
  have h1: "routes routesAB = [0, 1]" by code_simp
  have h2: "(0::nat) \<noteq> 1" by simp
  have h3: "selectedRoute routesAB = Some 0" by code_simp
  have h4: "segments (heap routesAB 0) = [hike 100 [0, 100]]" by code_simp
  have h5: "segments (heap routesAB 1) = [hike 101 [120, 120], hike 102 [120, 300]]" by code_simp
  have h6: "name (heap routesAB 0) \<noteq> name (heap routesAB 1)" by code_simp
  have h7: "latlngs (hike 100 [0, 100]) \<noteq> []" by code_simp
  have h8: "latlngs (hike 101 [120, 120]) = 120 # [120]" by code_simp
  have h9: "latlngs (hike 102 [120, 300]) \<noteq> []" by code_simp
  have h10: "distanceTo lineServices 120 (last (latlngs (hike 100 [0, 100]))) < MERGE_THRESHOLD"
    by code_simp
  have h11: "\<not> distanceTo lineServices (last (latlngs (hike 102 [120, 300])))
               (last (latlngs (hike 100 [0, 100]))) < MERGE_THRESHOLD"
    by code_simp
  have e: "last (latlngs (hike 100 [0, 100])) # latlngs (hike 102 [120, 300]) = [100, 120, 300]"
    by code_simp
  from mergeSelectedRouteToClosest_at_end[OF h1 h2 h3 h4 h5 h6 h7 h8 h9 h10 h11] e h1 h3 h4 h5
  show ?thesis by auto
qed

text \<open>The same state with a single segment in \<open>b\<close>: the merge throws.\<close>

lemma mergeSelectedRouteToClosest_one_segment:
  assumes rs: "routes s = [a, b]" and ab: "a \<noteq> b" and sel: "selectedRoute s = Some a"
    and sa: "segments (heap s a) = [s1]" and sb: "segments (heap s b) = [s2]"
    and names: "name (heap s a) \<noteq> name (heap s b)"
    and p1: "latlngs s1 \<noteq> []" and p2: "latlngs s2 = q0 # qs"
    and near: "distanceTo sv q0 (last (latlngs s1)) < MERGE_THRESHOLD"
    and far: "\<not> distanceTo sv (last (latlngs s2)) (last (latlngs s1)) < MERGE_THRESHOLD"
  shows "\<exists>s'. mergeSelectedRouteToClosest sv False s = (Inl TypeError, s')
     \<and> routes s' = [a] \<and> segments (heap s' a) = [s1]"
proof -
  let ?pa = "last (latlngs s1)"
  have la: "getLastLatLng [s1] = Inr ?pa" using p1 by (simp add: getLastLatLng_def)
  have lb: "getLastLatLng [s2] = Inr (last (latlngs s2))" using p2 by (simp add: getLastLatLng_def)
  have fb: "firstLatLng [s2] = Inr (Some q0)" using p2 by (simp add: firstLatLng_def)
  have closest: "getClosestRoute sv False s = Inr (Some b)"
    using rs ab sel sa sb la lb fb near far
    by (simp add: getClosestRoute_def latLngToCheck_def closerThanThreshold_def)
  let ?s1 = "setHiddenState sv a s"
  have g: "getRouteByName (name (heap s b)) ?s1 = Some b"
    using rs names by (simp add: getRouteByName_def)
  note rf = removeRoute_fields[OF g]
  let ?s2 = "removeRoute (name (heap s b)) ?s1"
  let ?s3 = "setMarkers a (markers (heap s a) @ markers (heap s b)) ?s2"
  let ?s4 = "setSegments b [] ?s3"
  have run: "mergeSelectedRouteToClosest sv False s = (Inl TypeError, ?s4)"
    unfolding mergeSelectedRouteToClosest_def mergeLast_def
    using closest sel ab sa sb la lb far
    by (simp add: rf nonNull_def latLngToCheck_def closerThanThreshold_def
        splice_js_first splice_js_front)
  have "routes ?s4 = [a]" using rs ab by (simp add: rf)
  moreover have "segments (heap ?s4 a) = [s1]" using ab sa by (simp add: rf)
  ultimately show ?thesis using run by blast
qed

text \<open>
  Where the claim as written fails: in the scenario of the claim \<open>b\<close> has exactly one
  segment; the merge drops it, finds no segment to put the point into, and throws
  with \<open>a\<close> left as it was but for the markers.
\<close>

theorem mergeSelectedRouteToClosest_single_segment:
  "routes routesAB1 = [0, 1] \<and> selectedRoute routesAB1 = Some 0
   \<and> segments (heap routesAB1 0) = [hike 100 [0, 100]]
   \<and> segments (heap routesAB1 1) = [hike 102 [120, 300]]
   \<and> distanceTo lineServices 120 100 < MERGE_THRESHOLD
   \<and> fst (mergeSelectedRouteToClosest lineServices False routesAB1) = Inl TypeError
   \<and> segments (heap (snd (mergeSelectedRouteToClosest lineServices False routesAB1)) 0)
       = [hike 100 [0, 100]]"
proof -
  have h1: "routes routesAB1 = [0, 1]" by code_simp
  have h2: "(0::nat) \<noteq> 1" by simp
  have h3: "selectedRoute routesAB1 = Some 0" by code_simp
  have h4: "segments (heap routesAB1 0) = [hike 100 [0, 100]]" by code_simp
  have h5: "segments (heap routesAB1 1) = [hike 102 [120, 300]]" by code_simp
  have h6: "name (heap routesAB1 0) \<noteq> name (heap routesAB1 1)" by code_simp
  have h7: "latlngs (hike 100 [0, 100]) \<noteq> []" by code_simp
  have h8: "latlngs (hike 102 [120, 300]) = 120 # [300]" by code_simp
  have h10: "distanceTo lineServices 120 (last (latlngs (hike 100 [0, 100]))) < MERGE_THRESHOLD"
    by code_simp
  have h11: "\<not> distanceTo lineServices (last (latlngs (hike 102 [120, 300])))
               (last (latlngs (hike 100 [0, 100]))) < MERGE_THRESHOLD"
    by code_simp
  have d: "distanceTo lineServices 120 100 < MERGE_THRESHOLD" by code_simp
  from mergeSelectedRouteToClosest_one_segment[OF h1 h2 h3 h4 h5 h6 h7 h8 h10 h11] h1 h3 h4 h5 d
  show ?thesis by auto
qed

subsection \<open>What a merge absorbs\<close>

lemma routesAB_fields:
  "routes routesAB = [0, 1]" "selectedRoute routesAB = Some 0"
  "name (heap routesAB 0) = Str (js ''A'')" "name (heap routesAB 1) = Str (js ''B'')"
  "segments (heap routesAB 0) = [hike 100 [0, 100]]"
  "segments (heap routesAB 1) = [hike 101 [120, 120], hike 102 [120, 300]]"
  "markers (heap routesAB 0) = [star 1]" "markers (heap routesAB 1) = [star 2, star 3]"
  "name (heap routesAB (Suc 0)) = Str (js ''B'')" "markers (heap routesAB (Suc 0)) = [star 2, star 3]"
  by code_simp+

lemma closestLoop_Some:
  "closestLoop sv s sel p rs = Inr (Some c) \<Longrightarrow> c \<in> set rs \<and> c \<noteq> sel"
  by (induction rs) (auto split: if_splits sum.splits bool.splits)

lemma getClosestRoute_Some:
  assumes "getClosestRoute sv isFirst s = Inr (Some c)" and "selectedRoute s = Some sel"
  shows "c \<in> set (routes s) \<and> c \<noteq> sel"
  using assms closestLoop_Some[of sv s sel _ "routes s" c]
  by (auto simp: getClosestRoute_def split: sum.splits)

lemma find_distinct_name:
  "distinct (map f xs) \<Longrightarrow> c \<in> set xs \<Longrightarrow> find (\<lambda>x. f x = f c) xs = Some c"
  by (induction xs) (auto simp: image_iff)

lemma keepsJ_mergeTail:
  "keepsJ (sameNamesMarkers s0)
     (bindJ (readJ (latLngToCheck isFirst sel)) (\<lambda>p.
      thenJ (if isFirst then mergeFirst sv c sel p else mergeLast sv c sel p)
     (thenJ (onSelected setEditRouteState) (onSelected raiseDataChanged))))"
  by (intro keepsJ_bindJ keepsJ_thenJ keepsJ_readJ keepsJ_onSelected)
     (simp_all add: keepsJ_mergeFirst keepsJ_mergeLast sameNamesMarkers_steps)

text \<open>
  C5, as the code has it.  In a state whose route names are pairwise distinct and in
  which \<^verbatim>\<open>getClosestRoute(isFirst)\<close> returns the route \<open>c\<close>, after
  \<^verbatim>\<open>mergeSelectedRouteToClosest(isFirst)\<close>, whether it returns or throws later on, no
  route of the collection bears the name of \<open>c\<close>, the selection is the same route, and
  its markers are its markers before followed by those of \<open>c\<close>, so their number is
  the sum of the two numbers before.
\<close>

theorem mergeSelectedRouteToClosest_absorbs:
  assumes d: "distinct (routeNames s)" and sel: "selectedRoute s = Some sel"
    and closest: "getClosestRoute sv isFirst s = Inr (Some c)"
  shows "name (heap s c) \<notin> set (routeNames (snd (mergeSelectedRouteToClosest sv isFirst s)))
     \<and> selectedRoute (snd (mergeSelectedRouteToClosest sv isFirst s)) = Some sel
     \<and> markers (heap (snd (mergeSelectedRouteToClosest sv isFirst s)) sel)
         = markers (heap s sel) @ markers (heap s c)
     \<and> length (markers (heap (snd (mergeSelectedRouteToClosest sv isFirst s)) sel))
         = length (markers (heap s sel)) + length (markers (heap s c))"
proof -
  from getClosestRoute_Some[OF closest sel] have c: "c \<in> set (routes s)" and ne: "c \<noteq> sel"
    by simp_all
  let ?s1 = "setHiddenState sv sel s"
  have g: "getRouteByName (name (heap s c)) ?s1 = Some c"
    using d c find_distinct_name[of "\<lambda>r. name (heap s r)" "routes s" c]
    by (simp add: getRouteByName_def routeNames_def)
  note rf = removeRoute_fields[OF g]
  let ?s2 = "removeRoute (name (heap s c)) ?s1"
  let ?s3 = "setMarkers sel (markers (heap s sel) @ markers (heap s c)) ?s2"
  let ?tail = "bindJ (readJ (latLngToCheck isFirst sel)) (\<lambda>p.
      thenJ (if isFirst then mergeFirst sv c sel p else mergeLast sv c sel p)
     (thenJ (onSelected setEditRouteState) (onSelected raiseDataChanged)))"
  have run: "mergeSelectedRouteToClosest sv isFirst s = ?tail ?s3"
    unfolding mergeSelectedRouteToClosest_def
    using closest sel ne by (simp add: rf nonNull_def)
  have "sameNamesMarkers ?s3 (snd (?tail ?s3))"
    by (intro keepsJ_apply[OF keepsJ_mergeTail] sameNamesMarkers_refl)
  with run have same: "sameNamesMarkers ?s3 (snd (mergeSelectedRouteToClosest sv isFirst s))"
    by simp
  let ?s' = "snd (mergeSelectedRouteToClosest sv isFirst s)"
  from same have "routeNames ?s' = map (\<lambda>x. name (heap s x)) (remove1 c (routes s))"
    by (simp add: sameNamesMarkers_def routeNames_def rf)
  with routeNames_remove1[OF d c] have "name (heap s c) \<notin> set (routeNames ?s')" by simp
  moreover from same sel ne have "selectedRoute ?s' = Some sel"
    by (simp add: sameNamesMarkers_def rf)
  moreover from same have "markers (heap ?s' sel) = markers (heap s sel) @ markers (heap s c)"
    by (simp add: sameNamesMarkers_def rf)
  ultimately show ?thesis by simp
qed

theorem mergeSelectedRouteToClosest_absorbs_witness:
  "distinct (routeNames routesAB) \<and> selectedRoute routesAB = Some 0
   \<and> getClosestRoute lineServices False routesAB = Inr (Some 1)
   \<and> Str (js ''B'') \<notin> set (routeNames (snd (mergeSelectedRouteToClosest lineServices False routesAB)))
   \<and> length (markers (heap (snd (mergeSelectedRouteToClosest lineServices False routesAB)) 0)) = 3"
proof -
  have h1: "distinct (routeNames routesAB)" by code_simp
  have h2: "selectedRoute routesAB = Some 0" by (rule routesAB_fields)
  have h3: "getClosestRoute lineServices False routesAB = Inr (Some 1)" by code_simp
  from mergeSelectedRouteToClosest_absorbs[OF h1 h2 h3] h1 h2 h3
  show ?thesis by (simp add: routesAB_fields)
qed

text \<open>
  Where the claim as written fails: the closest route bears the name of the selected
  route, which comes first in the collection; the removal by name takes the selected
  route, and the route to absorb stays.
\<close>

lemma mergeSelectedRouteToClosest_namesake:
  assumes rs: "routes s = [a, b]" and ab: "a \<noteq> b" and sel: "selectedRoute s = Some a"
    and names: "name (heap s a) = name (heap s b)"
    and closest: "getClosestRoute sv isFirst s = Inr (Some b)"
  shows "\<exists>s'. mergeSelectedRouteToClosest sv isFirst s = (Inl TypeError, s')
     \<and> routes s' = [b] \<and> selectedRoute s' = None \<and> name (heap s' b) = name (heap s b)"
proof -
  let ?s1 = "setHiddenState sv a s"
  have g: "getRouteByName (name (heap s b)) ?s1 = Some a"
    using rs names by (simp add: getRouteByName_def)
  note rf = removeRoute_fields[OF g]
  let ?s2 = "removeRoute (name (heap s b)) ?s1"
  have run: "mergeSelectedRouteToClosest sv isFirst s = (Inl TypeError, ?s2)"
    unfolding mergeSelectedRouteToClosest_def
    using closest sel by (simp add: rf nonNull_def)
  have "routes ?s2 = [b]" using rs ab by (simp add: rf)
  moreover have "selectedRoute ?s2 = None" using sel by (simp add: rf)
  moreover have "name (heap ?s2 b) = name (heap s b)" by (simp add: rf)
  ultimately show ?thesis using run by blast
qed

theorem mergeSelectedRouteToClosest_removes_namesake:
  "routes namesakes = [0, 1] \<and> selectedRoute namesakes = Some 0
   \<and> getClosestRoute lineServices False namesakes = Inr (Some 1)
   \<and> name (heap namesakes 1) = Str (js ''A'')
   \<and> fst (mergeSelectedRouteToClosest lineServices False namesakes) = Inl TypeError
   \<and> Str (js ''A'') \<in> set (routeNames (snd (mergeSelectedRouteToClosest lineServices False namesakes)))
   \<and> selectedRoute (snd (mergeSelectedRouteToClosest lineServices False namesakes)) = None"
proof -
  have h1: "routes namesakes = [0, 1]" by code_simp
  have h2: "(0::nat) \<noteq> 1" by simp
  have h3: "selectedRoute namesakes = Some 0" by code_simp
  have h4: "name (heap namesakes 0) = name (heap namesakes 1)" by code_simp
  have h5: "getClosestRoute lineServices False namesakes = Inr (Some 1)" by code_simp
  have h6: "name (heap namesakes 1) = Str (js ''A'')" by code_simp
  from mergeSelectedRouteToClosest_namesake[OF h1 h2 h3 h4 h5] h1 h3 h5 h6
  show ?thesis by (auto simp: routeNames_def)
qed

subsection \<open>One route in Edit state\<close>

lemma addLayer_fields [simp]:
  "routes (addLayer r s) = routes s"
  "selectedRoute (addLayer r s) = selectedRoute s"
  "nextRef (addLayer r s) = nextRef s"
  "state (heap (addLayer r s) x) = state (heap s x)"
  by (simp_all add: addLayer_def)

lemma removeLayer_state [simp]: "state (heap (removeLayer r s) x) = state (heap s x)"
  by simp

lemma selectRoute_state:
  "state (heap (selectRoute x s) r) = (if selectedRoute s = Some r then ReadOnly else state (heap s r))"
  by (simp split: option.splits)

lemma editOnlySelected_setters:
  "editOnlySelected s \<Longrightarrow> editOnlySelected (setHiddenState sv r s)"
  "editOnlySelected s \<Longrightarrow> editOnlySelected (setReadOnlyState r s)"
  "editOnlySelected s \<Longrightarrow> editOnlySelected (raiseDataChanged r s)"
  "editOnlySelected s \<Longrightarrow> editOnlySelected (setSegments r segs s)"
  "editOnlySelected s \<Longrightarrow> editOnlySelected (setMarkers r ms s)"
  "editOnlySelected s \<Longrightarrow> editOnlySelected (reverse sv r s)"
  "editOnlySelected s \<Longrightarrow> editOnlySelected (addLayer r s)"
  "editOnlySelected s \<Longrightarrow> editOnlySelected (removeLayer r s)"
  by (simp_all add: editOnlySelected_def list_all_iff del: removeLayer_fields(5))

lemma editOnlySelected_setEdit:
  "editOnlySelected s \<Longrightarrow> selectedRoute s = Some r \<Longrightarrow> editOnlySelected (setEditRouteState r s)"
  by (simp add: editOnlySelected_def list_all_iff)

lemma editOnlySelected_setEditMode:
  "editOnlySelected s \<Longrightarrow> selectedRoute s = Some r \<Longrightarrow> editOnlySelected (setEditMode sv r m s)"
  by (simp add: editOnlySelected_def list_all_iff)

lemma keepsJ_newObject: "keepsJ editOnlySelected newObject"
  by (auto simp: keepsJ_def editOnlySelected_def list_all_iff)

lemma editOnlySelected_selectRoute:
  "editOnlySelected s \<Longrightarrow> editOnlySelected (selectRoute x s)"
  by (auto simp: editOnlySelected_def list_all_iff selectRoute_state simp del: selectRoute_fields(5))

lemma editOnlySelected_selectFirst:
  "editOnlySelected s \<Longrightarrow> selectedRoute s = None \<Longrightarrow>
   editOnlySelected (s\<lparr>selectedRoute := Some (routes s ! 0)\<rparr>)"
  by (auto simp: editOnlySelected_def list_all_iff)

lemma editOnlySelected_addLayerFromData:
  "editOnlySelected s \<Longrightarrow> editOnlySelected (addLayerFromData sv rd s)"
  by (auto simp: editOnlySelected_def list_all_iff addLayerFromData_fields)

lemma editOnlySelected_addRoute:
  "editOnlySelected s \<Longrightarrow> editOnlySelected (addRoute sv rt s)"
  by (auto simp: editOnlySelected_def list_all_iff addRoute_fields)

lemma editOnlySelected_removeRoute:
  "editOnlySelected s \<Longrightarrow> editOnlySelected (removeRoute n s)"
proof (cases "getRouteByName n s")
  case None
  assume "editOnlySelected s"
  with None show ?thesis by (simp add: removeRoute_absent)
next
  case (Some r)
  assume "editOnlySelected s"
  then show ?thesis
    by (auto simp: editOnlySelected_def list_all_iff removeRoute_fields[OF Some])
qed

lemma editOnlySelected_changeRouteState:
  "editOnlySelected s \<Longrightarrow> editOnlySelected (changeRouteState r s)"
  by (simp add: changeRouteState_def Let_def editOnlySelected_selectRoute editOnlySelected_setters)

lemma keepsJ_addRouteLayers: "keepsJ editOnlySelected (addRouteLayers sv rs)"
proof (induction rs)
  case Nil
  show ?case by (simp add: keepsJ_def)
next
  case (Cons rd rs)
  show ?case
    unfolding addRouteLayers.simps
    by (intro keepsJ_bindJ keepsJ_thenJ keepsJ_modifyJ keepsJ_readJ Cons.IH)
       (simp add: editOnlySelected_addLayerFromData)
qed

lemma keepsJ_cond:
  "keepsJ I m \<Longrightarrow> keepsJ I n \<Longrightarrow> keepsJ I (\<lambda>s. if c s then m s else n s)"
  by (simp add: keepsJ_def)

lemma keepsJ_addLayersToMap: "keepsJ editOnlySelected (addLayersToMap sv rs)"
  unfolding addLayersToMap_def
  by (intro keepsJ_cond keepsJ_bindJ keepsJ_thenJ keepsJ_modifyJ keepsJ_readJ keepsJ_theSelected
        keepsJ_onSelected keepsJ_addRouteLayers)
     (auto simp: editOnlySelected_setters editOnlySelected_setEditMode
        editOnlySelected_selectFirst)

lemma keepsJ_setData: "keepsJ editOnlySelected (setData sv payload)"
  by (cases payload) (auto simp: setData_def keepsJ_addLayersToMap)

lemma keepsJ_split: "keepsJ editOnlySelected (splitSelectedRouteAt sv seg)"
  unfolding splitSelectedRouteAt_def
  apply (intro keepsJ_bindJ keepsJ_thenJ keepsJ_modifyJ keepsJ_readJ keepsJ_theSelected
        keepsJ_setData keepsJ_onSelected keepsJ_newObject)
  apply (auto simp: editOnlySelected_setters editOnlySelected_setEdit keepsJ_def
        split: prod.splits list.splits)
  done

lemma keepsJ_mergeFirst_edit: "keepsJ editOnlySelected (mergeFirst sv c sel p)"
  unfolding mergeFirst_def
  by (intro keepsJ_bindJ keepsJ_thenJ keepsJ_modifyJ keepsJ_readJ)
     (auto simp: editOnlySelected_setters split: prod.splits intro!: keepsJ_thenJ keepsJ_modifyJ)

lemma keepsJ_mergeLast_edit: "keepsJ editOnlySelected (mergeLast sv c sel p)"
  unfolding mergeLast_def
  by (intro keepsJ_bindJ keepsJ_thenJ keepsJ_modifyJ keepsJ_readJ)
     (auto simp: editOnlySelected_setters split: prod.splits intro!: keepsJ_thenJ keepsJ_modifyJ)

lemma keepsJ_merge: "keepsJ editOnlySelected (mergeSelectedRouteToClosest sv isFirst)"
  unfolding mergeSelectedRouteToClosest_def
  by (intro keepsJ_bindJ keepsJ_thenJ keepsJ_modifyJ keepsJ_readJ keepsJ_theSelected
        keepsJ_onSelected keepsJ_nonNull)
     (auto simp: editOnlySelected_setters editOnlySelected_setEdit editOnlySelected_removeRoute
        keepsJ_mergeFirst_edit keepsJ_mergeLast_edit)

lemma reachable_editOnlySelected: "reachable sv s \<Longrightarrow> editOnlySelected s"
proof (induction rule: reachable.induct)
  case (initially blank)
  then show ?case by (simp add: editOnlySelected_def newRoutesService_def)
next
  case (afterAddRoute s rt)
  then show ?case by (simp add: editOnlySelected_addRoute)
next
  case (afterRemoveRoute s n)
  then show ?case by (simp add: editOnlySelected_removeRoute)
next
  case (afterChangeRouteState s r)
  then show ?case by (simp add: editOnlySelected_changeRouteState)
next
  case (afterSetData s payload)
  then show ?case by (simp add: keepsJ_apply[OF keepsJ_setData])
next
  case (afterSplit s seg)
  then show ?case by (simp add: keepsJ_apply[OF keepsJ_split])
next
  case (afterMerge s isFirst)
  then show ?case by (simp add: keepsJ_apply[OF keepsJ_merge])
qed

lemma filter_at_most_one:
  assumes "distinct xs" and "\<forall>x\<in>set xs. P x \<longrightarrow> x = a"
  shows "length (filter P xs) \<le> 1"
proof -
  from assms(1) have "distinct (filter P xs)" by simp
  then have "length (filter P xs) = card (set (filter P xs))"
    by (rule distinct_card[symmetric])
  also from assms(2) have "set (filter P xs) \<subseteq> {a}" by auto
  then have "card (set (filter P xs)) \<le> card {a}" by (intro card_mono) simp_all
  finally show ?thesis by simp
qed

text \<open>
  C7.  After every sequence of operations of the manager (\<^verbatim>\<open>addRoute\<close>,
  \<^verbatim>\<open>removeRoute\<close>, \<^verbatim>\<open>changeRouteState\<close>, \<^verbatim>\<open>setData\<close>, \<^verbatim>\<open>splitSelectedRouteAt\<close>,
  \<^verbatim>\<open>mergeSelectedRouteToClosest\<close>) from an empty manager, at most one route of the
  collection is in Edit state, and a route in Edit state is the selected one; and
  selecting a route (or none) puts the route selected before into ReadOnly state.
\<close>

theorem at_most_one_route_in_edit_state:
  assumes "reachable sv s"
  shows "length (filter (\<lambda>r. state (heap s r) = Edit) (routes s)) \<le> 1
     \<and> (\<forall>r\<in>set (routes s). state (heap s r) = Edit \<longrightarrow> selectedRoute s = Some r)
     \<and> (\<forall>old x. selectedRoute s = Some old \<longrightarrow>
           state (heap (selectRoute x s) old) = ReadOnly \<and> selectedRoute (selectRoute x s) = x)"
proof -
  from assms have inv: "editOnlySelected s" by (rule reachable_editOnlySelected)
  then have only: "\<forall>r\<in>set (routes s). state (heap s r) = Edit \<longrightarrow> selectedRoute s = Some r"
    and d: "distinct (routes s)"
    by (simp_all add: editOnlySelected_def list_all_iff)
  have "length (filter (\<lambda>r. state (heap s r) = Edit) (routes s)) \<le> 1"
  proof (cases "selectedRoute s")
    case None
    with only have "filter (\<lambda>r. state (heap s r) = Edit) (routes s) = []"
      by (auto simp: filter_empty_conv)
    then show ?thesis by simp
  next
    case (Some a)
    with only have "\<forall>r\<in>set (routes s). state (heap s r) = Edit \<longrightarrow> r = a" by auto
    with d show ?thesis by (rule filter_at_most_one)
  qed
  with only show ?thesis by (simp add: selectRoute_state del: selectRoute_fields(5))
qed

theorem at_most_one_route_in_edit_state_witness:
  "reachable lineServices twoRoutes
   \<and> length (filter (\<lambda>r. state (heap twoRoutes r) = Edit) (routes twoRoutes)) \<le> 1
   \<and> filter (\<lambda>r. state (heap twoRoutes r) = Edit) (routes twoRoutes) = [1]
   \<and> selectedRoute twoRoutes = Some 1
   \<and> state (heap (selectRoute (Some 0) twoRoutes) 1) = ReadOnly"
proof -
  have "reachable lineServices emptyManager"
    unfolding emptyManager_def by (rule reachable.initially)
  then have "reachable lineServices (addRoute lineServices (namedRoute ''Route 1'' [] []) emptyManager)"
    by (rule reachable.afterAddRoute)
  then have r: "reachable lineServices twoRoutes"
    unfolding twoRoutes_def by (rule reachable.afterAddRoute)
  have f: "filter (\<lambda>r. state (heap twoRoutes r) = Edit) (routes twoRoutes) = [1]" by code_simp
  have s: "selectedRoute twoRoutes = Some 1" by code_simp
  from at_most_one_route_in_edit_state[OF r] r f s show ?thesis by simp
qed

end
